theory Spec2Isabelle
  imports Main "HOL-Library.Log_Nat" "HOL-Library.Multiset"
begin

section \<open>Finance Robot: transaction ingestion, categorization and aggregation\<close>

text \<open>
  A shallow embedding of the server module of the repository (the file with the
  helpers \<open>categorize\<close> and \<open>normalizeAmount\<close> and the Express routes).
  Strings are ASCII texts, modelled as \<^typ>\<open>string\<close>; numbers are the double
  precision values of the language, modelled by the type \<open>jsnum\<close> below with
  round-to-nearest-even arithmetic written out.
\<close>

subsection \<open>Strings\<close>

text \<open>\<open>String.prototype.toLowerCase\<close> on ASCII text: the 26 capital letters are mapped,
  every other character is kept.\<close>

definition toLowerChar :: "char \<Rightarrow> char" where
  "toLowerChar c =
     (case map_of (zip ''ABCDEFGHIJKLMNOPQRSTUVWXYZ'' ''abcdefghijklmnopqrstuvwxyz'') c of
        Some d \<Rightarrow> d
      | None \<Rightarrow> c)"

definition toLowerCase :: "string \<Rightarrow> string" where
  "toLowerCase s = map toLowerChar s"

text \<open>White space as \<open>trim\<close> and the string-to-number conversion see it (ASCII part):
  tab, line feed, vertical tab, form feed, carriage return, space.\<close>

definition is_ws :: "char \<Rightarrow> bool" where
  "is_ws c = (c \<in> set [CHR 0x09, CHR 0x0A, CHR 0x0B, CHR 0x0C, CHR 0x0D, CHR 0x20])"

definition trim :: "string \<Rightarrow> string" where
  "trim s = rev (dropWhile is_ws (rev (dropWhile is_ws s)))"

fun startsWith :: "string \<Rightarrow> string \<Rightarrow> bool" where
  "startsWith s [] = True"
| "startsWith [] (k # ks) = False"
| "startsWith (c # cs) (k # ks) = (c = k \<and> startsWith cs ks)"

definition endsWith :: "string \<Rightarrow> string \<Rightarrow> bool" where
  "endsWith s k = startsWith (rev s) (rev k)"

text \<open>\<open>s.includes(k)\<close>: \<open>k\<close> occurs in \<open>s\<close> as a contiguous substring.\<close>

fun str_includes :: "string \<Rightarrow> string \<Rightarrow> bool" where
  "str_includes [] k = (k = [])"
| "str_includes (c # cs) k = (startsWith (c # cs) k \<or> str_includes cs k)"

text \<open>The conversion \<open>String(v ?? "")\<close> of a value that is a string or absent
  (\<open>undefined\<close>, \<open>null\<close>), and \<open>String(v)\<close>, which spells \<open>undefined\<close> out.\<close>

definition str_or_empty :: "string option \<Rightarrow> string" where
  "str_or_empty v = (case v of None \<Rightarrow> [] | Some s \<Rightarrow> s)"

definition String_of :: "string option \<Rightarrow> string" where
  "String_of v = (case v of None \<Rightarrow> ''undefined'' | Some s \<Rightarrow> s)"

text \<open>\<open>a || b\<close> on values that are strings or \<open>undefined\<close>: the first operand when it
  is truthy (a non-empty string), the second operand otherwise, whatever it is.\<close>

definition truthy_str :: "string option \<Rightarrow> bool" where
  "truthy_str v = (case v of None \<Rightarrow> False | Some s \<Rightarrow> s \<noteq> [])"

definition js_or :: "string option \<Rightarrow> string option \<Rightarrow> string option" where
  "js_or a b = (if truthy_str a then a else b)"

subsection \<open>Numbers\<close>

text \<open>A number of the language is an IEEE 754 double: not-a-number, the two infinities,
  negative zero, or a finite value (\<open>Fin 0\<close> is positive zero). Finite values are kept
  as the rational they denote; every arithmetic operation rounds its exact result to the
  nearest double, ties to even (\<open>round64\<close>).\<close>

datatype jsnum = NaN | PInf | NInf | NZero | Fin rat

definition pow2 :: "int \<Rightarrow> rat" where
  "pow2 e = (if 0 \<le> e then 2 ^ nat e else 1 / 2 ^ nat (- e))"

text \<open>\<open>ilog2 q\<close> is the exponent \<open>e\<close> with \<open>2^e \<le> q < 2^(e+1)\<close>, for \<open>q > 0\<close>
  (lemma \<open>ilog2_bounds\<close> below).\<close>

definition ilog2 :: "rat \<Rightarrow> int" where
  "ilog2 q = (if 1 \<le> q then bitlen \<lfloor>q\<rfloor> - 1 else - bitlen (\<lceil>1 / q\<rceil> - 1))"

definition round_even :: "rat \<Rightarrow> int" where
  "round_even x =
     (let f = \<lfloor>x\<rfloor>; d = x - of_int f
      in if d < 1 / 2 then f
         else if 1 / 2 < d then f + 1
         else if even f then f else f + 1)"

definition round64 :: "rat \<Rightarrow> jsnum" where
  "round64 q =
     (if q = 0 then Fin 0
      else
        let m = \<bar>q\<bar>;
            e = max (ilog2 m) (- 1022);
            u = pow2 (e - 52);
            r = of_int (round_even (m / u)) * u
        in if pow2 1024 \<le> r then (if 0 < q then PInf else NInf)
           else if r = 0 then (if 0 < q then Fin 0 else NZero)
           else Fin (if 0 < q then r else - r))"

text \<open>Unary minus, \<open>Math.abs\<close>, the test \<open>x > 0\<close>, truthiness of a number.\<close>

fun jsneg :: "jsnum \<Rightarrow> jsnum" where
  "jsneg NaN = NaN"
| "jsneg PInf = NInf"
| "jsneg NInf = PInf"
| "jsneg NZero = Fin 0"
| "jsneg (Fin q) = (if q = 0 then NZero else Fin (- q))"

fun jsabs :: "jsnum \<Rightarrow> jsnum" where
  "jsabs NaN = NaN"
| "jsabs PInf = PInf"
| "jsabs NInf = PInf"
| "jsabs NZero = Fin 0"
| "jsabs (Fin q) = Fin \<bar>q\<bar>"

fun jsgt0 :: "jsnum \<Rightarrow> bool" where
  "jsgt0 PInf = True"
| "jsgt0 (Fin q) = (0 < q)"
| "jsgt0 _ = False"

fun truthy_num :: "jsnum \<Rightarrow> bool" where
  "truthy_num NaN = False"
| "truthy_num NZero = False"
| "truthy_num (Fin q) = (q \<noteq> 0)"
| "truthy_num _ = True"

text \<open>Addition. Opposite infinities give not-a-number; the sum of two negative zeros is
  negative zero; an exact sum of zero is positive zero.\<close>

fun jsadd :: "jsnum \<Rightarrow> jsnum \<Rightarrow> jsnum" where
  "jsadd NaN y = NaN"
| "jsadd x NaN = NaN"
| "jsadd PInf NInf = NaN"
| "jsadd NInf PInf = NaN"
| "jsadd PInf y = PInf"
| "jsadd x PInf = PInf"
| "jsadd NInf y = NInf"
| "jsadd x NInf = NInf"
| "jsadd NZero NZero = NZero"
| "jsadd NZero (Fin b) = Fin b"
| "jsadd (Fin a) NZero = Fin a"
| "jsadd (Fin a) (Fin b) = round64 (a + b)"

definition jssub :: "jsnum \<Rightarrow> jsnum \<Rightarrow> jsnum" where
  "jssub x y = jsadd x (jsneg y)"

fun sign_neg :: "jsnum \<Rightarrow> bool" where
  "sign_neg NInf = True"
| "sign_neg NZero = True"
| "sign_neg (Fin q) = (q < 0)"
| "sign_neg _ = False"

fun is_inf :: "jsnum \<Rightarrow> bool" where
  "is_inf PInf = True"
| "is_inf NInf = True"
| "is_inf _ = False"

fun fin_val :: "jsnum \<Rightarrow> rat" where
  "fin_val (Fin q) = q"
| "fin_val _ = 0"

definition is_zero :: "jsnum \<Rightarrow> bool" where
  "is_zero x = (x = NZero \<or> x = Fin 0)"

definition mk_zero :: "bool \<Rightarrow> jsnum" where
  "mk_zero neg = (if neg then NZero else Fin 0)"

definition mk_inf :: "bool \<Rightarrow> jsnum" where
  "mk_inf neg = (if neg then NInf else PInf)"

definition jsmul :: "jsnum \<Rightarrow> jsnum \<Rightarrow> jsnum" where
  "jsmul x y =
     (let neg = (sign_neg x \<noteq> sign_neg y) in
      if x = NaN \<or> y = NaN then NaN
      else if is_inf x \<or> is_inf y then (if is_zero x \<or> is_zero y then NaN else mk_inf neg)
      else if fin_val x * fin_val y = 0 then mk_zero neg
      else round64 (fin_val x * fin_val y))"

definition jsdiv :: "jsnum \<Rightarrow> jsnum \<Rightarrow> jsnum" where
  "jsdiv x y =
     (let neg = (sign_neg x \<noteq> sign_neg y) in
      if x = NaN \<or> y = NaN then NaN
      else if is_inf x then (if is_inf y then NaN else mk_inf neg)
      else if is_inf y then mk_zero neg
      else if is_zero y then (if is_zero x then NaN else mk_inf neg)
      else if is_zero x then mk_zero neg
      else round64 (fin_val x / fin_val y))"

text \<open>The comparison \<open>x < y\<close>: false as soon as one side is not-a-number; the two zeros
  are equal.\<close>

fun jslt :: "jsnum \<Rightarrow> jsnum \<Rightarrow> bool" where
  "jslt NaN y = False"
| "jslt x NaN = False"
| "jslt PInf y = False"
| "jslt x PInf = True"
| "jslt x NInf = False"
| "jslt NInf y = True"
| "jslt x y = (fin_val x < fin_val y)"

subsection \<open>Conversion of a string to a number\<close>

text \<open>\<open>Number(s)\<close> for a string: white space around the literal is dropped; the empty
  string is \<open>0\<close>; a literal is a signed decimal literal (digits, optional fraction,
  optional exponent, or \<open>Infinity\<close>) or an unsigned hexadecimal, octal or binary integer;
  anything else is not-a-number. The value of the literal is rounded to the nearest
  double.\<close>

definition is_digit :: "char \<Rightarrow> bool" where
  "is_digit c = (c \<in> set ''0123456789'')"

definition digit_val :: "char \<Rightarrow> nat" where
  "digit_val c =
     (case map_of (zip ''0123456789abcdef'' [0, 1, 2, 3, 4, 5, 6, 7, 8, 9, 10, 11, 12, 13, 14, 15])
                  (toLowerChar c) of
        Some d \<Rightarrow> d
      | None \<Rightarrow> 0)"

definition digits_val :: "nat \<Rightarrow> string \<Rightarrow> nat" where
  "digits_val base ds = foldl (\<lambda>a c. base * a + digit_val c) 0 ds"

definition pow10 :: "int \<Rightarrow> rat" where
  "pow10 e = (if 0 \<le> e then 10 ^ nat e else 1 / 10 ^ nat (- e))"

definition parse_exponent :: "string \<Rightarrow> int option" where
  "parse_exponent s =
     (case s of
        [] \<Rightarrow> Some 0
      | c # r \<Rightarrow>
          if c = CHR ''e'' \<or> c = CHR ''E'' then
            (let (sg, ds) =
               (case r of
                  [] \<Rightarrow> (1, [])
                | d # r' \<Rightarrow>
                    if d = CHR ''+'' then (1, r')
                    else if d = CHR ''-'' then (- 1, r')
                    else (1, r))
             in if ds \<noteq> [] \<and> list_all is_digit ds
                then Some (sg * int (digits_val 10 ds)) else None)
          else None)"

definition parse_unsigned_decimal :: "string \<Rightarrow> rat option" where
  "parse_unsigned_decimal s =
     (let ip = takeWhile is_digit s;
          r1 = dropWhile is_digit s;
          (fp, r2) =
            (case r1 of
               [] \<Rightarrow> ([], [])
             | c # r \<Rightarrow>
                 if c = CHR ''.'' then (takeWhile is_digit r, dropWhile is_digit r)
                 else ([], r1))
      in if ip = [] \<and> fp = [] then None
         else
           case parse_exponent r2 of
             None \<Rightarrow> None
           | Some e \<Rightarrow>
               Some ((of_nat (digits_val 10 ip)
                      + of_nat (digits_val 10 fp) / 10 ^ length fp) * pow10 e))"

definition parse_nondecimal :: "string \<Rightarrow> rat option" where
  "parse_nondecimal s =
     (case s of
        z # x # ds \<Rightarrow>
          if z = CHR ''0'' \<and> ds \<noteq> [] then
            (if toLowerChar x = CHR ''x''
                \<and> list_all (\<lambda>c. toLowerChar c \<in> set ''0123456789abcdef'') ds
               then Some (of_nat (digits_val 16 ds))
             else if toLowerChar x = CHR ''o'' \<and> list_all (\<lambda>c. c \<in> set ''01234567'') ds
               then Some (of_nat (digits_val 8 ds))
             else if toLowerChar x = CHR ''b'' \<and> list_all (\<lambda>c. c \<in> set ''01'') ds
               then Some (of_nat (digits_val 2 ds))
             else None)
          else None
      | _ \<Rightarrow> None)"

definition Number_of_string :: "string \<Rightarrow> jsnum" where
  "Number_of_string str =
     (let s = trim str in
      if s = [] then Fin 0
      else
        case parse_nondecimal s of
          Some q \<Rightarrow> round64 q
        | None \<Rightarrow>
            (let (neg, u) =
               (case s of
                  [] \<Rightarrow> (False, s)
                | c # r \<Rightarrow>
                    if c = CHR ''-'' then (True, r)
                    else if c = CHR ''+'' then (False, r)
                    else (False, s))
             in if u = ''Infinity'' then (if neg then NInf else PInf)
                else
                  case parse_unsigned_decimal u of
                    None \<Rightarrow> NaN
                  | Some q \<Rightarrow> if neg then jsneg (round64 q) else round64 q))"

text \<open>The amount of a manual entry is typed \<open>number | string\<close>; \<open>Number(amount)\<close> keeps
  a number and converts a string.\<close>

datatype amount_in = AmtNum jsnum | AmtStr string

fun Number_of :: "amount_in \<Rightarrow> jsnum" where
  "Number_of (AmtNum n) = n"
| "Number_of (AmtStr s) = Number_of_string s"

subsection \<open>Helpers of the server\<close>

text \<open>\<open>categorize(name, amount)\<close>: the chain of \<open>if\<close> statements, in the order of the
  source.\<close>

definition categorize :: "string \<Rightarrow> jsnum \<Rightarrow> string" where
  "categorize name amount =
     (if trim name = [] then ''Uncategorized''
      else
        let n = toLowerCase name in
        if jsgt0 amount then ''Income''
        else if str_includes n ''rent'' then ''Housing''
        else if str_includes n ''grocery'' \<or> str_includes n ''supermarket''
                \<or> str_includes n ''trader'' \<or> str_includes n ''whole foods''
          then ''Groceries''
        else if str_includes n ''gas'' \<or> str_includes n ''shell''
                \<or> str_includes n ''exxon'' \<or> str_includes n ''bp''
          then ''Gas''
        else if str_includes n ''uber'' \<or> str_includes n ''lyft'' \<or> str_includes n ''taxi''
          then ''Transport''
        else if str_includes n ''netflix'' \<or> str_includes n ''spotify''
                \<or> str_includes n ''hulu'' \<or> str_includes n ''disney''
          then ''Subscriptions''
        else if str_includes n ''electric'' \<or> str_includes n ''utility''
                \<or> str_includes n ''water'' \<or> str_includes n ''coned''
                \<or> str_includes n ''pseg''
          then ''Utilities''
        else if str_includes n ''internet'' \<or> str_includes n ''verizon''
                \<or> str_includes n ''optimum'' \<or> str_includes n ''comcast''
          then ''Internet''
        else if str_includes n ''coffee'' \<or> str_includes n ''starbucks''
                \<or> str_includes n ''dunkin''
          then ''Coffee''
        else if str_includes n ''chipotle'' \<or> str_includes n ''mcdonald''
                \<or> str_includes n ''restaurant'' \<or> str_includes n ''pizza''
          then ''Dining''
        else ''Uncategorized'')"

text \<open>\<open>normalizeAmount(raw)\<close>: the replacement with the global pattern \<open>/[,$()]/g\<close>
  deletes every comma, dollar sign and parenthesis.\<close>

definition normalizeAmount :: "string \<Rightarrow> jsnum" where
  "normalizeAmount raw =
     (let s = trim raw;
          neg = (startsWith s ''('' \<and> endsWith s '')'');
          cleaned = filter (\<lambda>c. c \<notin> set '',$()'') s;
          n = Number_of_string cleaned
      in if neg then jsneg n else n)"

subsection \<open>Transactions and the manual entry\<close>

record Transaction =
  tx_id :: string
  tx_date :: string
  tx_name :: string
  tx_amount :: jsnum
  tx_category :: string

text \<open>The body of \<open>POST /transactions\<close>: \<open>date\<close> and \<open>name\<close> may be missing.\<close>

record entry_body =
  body_date :: "string option"
  body_name :: "string option"
  body_amount :: amount_in

text \<open>\<open>POST /transactions\<close>. The identifier comes from \<open>crypto.randomUUID()\<close>; the
  model takes it as the argument \<open>uuid\<close>. The result is the new content of the global
  list \<open>transactions\<close> and the record sent back.\<close>

definition post_transaction ::
  "string \<Rightarrow> Transaction list \<Rightarrow> entry_body \<Rightarrow> Transaction list \<times> Transaction" where
  "post_transaction uuid transactions body =
     (let cleanName = trim (str_or_empty (body_name body));
          amountNum = Number_of (body_amount body);
          tx = \<lparr>tx_id = uuid,
                tx_date = take 10 (String_of (body_date body)),
                tx_name = (if cleanName \<noteq> [] then cleanName else ''(No description)''),
                tx_amount = amountNum,
                tx_category =
                  (if cleanName \<noteq> [] then categorize cleanName amountNum
                   else ''Uncategorized'')\<rparr>
      in (transactions @ [tx], tx))"

subsection \<open>CSV import\<close>

text \<open>A parsed row maps column names to strings; reading a column that the file does
  not have gives \<open>undefined\<close> (\<open>None\<close>).\<close>

type_synonym row = "string \<rightharpoonup> string"

definition row_date :: "row \<Rightarrow> string option" where
  "row_date r =
     js_or (js_or (js_or (js_or (r ''date'') (r ''Date'')) (r ''TransactionDate''))
                  (r ''Transaction Date''))
           (r ''Trans. Date'')"

definition row_rawName :: "row \<Rightarrow> string option" where
  "row_rawName r =
     js_or (js_or (js_or (js_or (r ''name'') (r ''Description'')) (r ''Name''))
                  (r ''Merchant''))
           (r ''Merchant Name'')"

definition row_amountRaw :: "row \<Rightarrow> string option" where
  "row_amountRaw r =
     js_or (js_or (js_or (js_or (r ''amount'') (r ''Amount'')) (r ''Transaction Amount''))
                  (r ''Amount (USD)''))
           (r ''Amount'')"

definition row_bankCategory :: "row \<Rightarrow> string option" where
  "row_bankCategory r = js_or (r ''Category'') (r ''Category'')"

text \<open>The test of a case-insensitive pattern that is an alternation of lower-case
  words, as in \<open>/payment|credit|refund|returned|return/i.test(s)\<close>: one of the words
  occurs in \<open>s\<close>, letter case ignored.\<close>

definition regex_alt_test_i :: "string list \<Rightarrow> string \<Rightarrow> bool" where
  "regex_alt_test_i alts s = list_ex (\<lambda>k. str_includes (toLowerCase s) k) alts"

definition looksLikeCredit :: "string \<Rightarrow> string option \<Rightarrow> bool" where
  "looksLikeCredit cleanName bankCategory =
     (regex_alt_test_i [''payment'', ''credit'', ''refund'', ''returned'', ''return''] cleanName
      \<or> str_includes (toLowerCase (str_or_empty bankCategory)) ''payment''
      \<or> str_includes (toLowerCase (str_or_empty bankCategory)) ''credit'')"

text \<open>The body of the loop over the rows: \<open>None\<close> when the row is left out by
  \<open>continue\<close>, the transaction built from the row otherwise.\<close>

definition build_row :: "string \<Rightarrow> row \<Rightarrow> Transaction option" where
  "build_row uuid r =
     (let date = row_date r;
          rawName = row_rawName r;
          amountRaw = row_amountRaw r;
          bankCategory = row_bankCategory r
      in if \<not> truthy_str date \<or> amountRaw = None then None
         else
           let cleanName = trim (str_or_empty rawName);
               amountNum = normalizeAmount (String_of amountRaw);
               signedAmount =
                 (if looksLikeCredit cleanName bankCategory then jsabs amountNum
                  else jsneg (jsabs amountNum));
               cleanBankCategory = trim (str_or_empty bankCategory);
               category =
                 (if cleanBankCategory \<noteq> [] then cleanBankCategory
                  else if cleanName \<noteq> [] then categorize cleanName signedAmount
                  else ''Uncategorized'')
           in Some \<lparr>tx_id = uuid,
                     tx_date = take 10 (String_of date),
                     tx_name = (if cleanName \<noteq> [] then cleanName else ''(No description)''),
                     tx_amount = signedAmount,
                     tx_category = category\<rparr>)"

text \<open>The loop: the state is the global list \<open>transactions\<close> and the local list
  \<open>imported\<close>. The identifier of the \<open>k\<close>-th record created by the request is
  \<open>uuid k\<close>.\<close>

fun import_rows ::
  "(nat \<Rightarrow> string) \<Rightarrow> row list \<Rightarrow> Transaction list \<times> Transaction list
     \<Rightarrow> Transaction list \<times> Transaction list" where
  "import_rows uuid [] st = st"
| "import_rows uuid (r # rs) (transactions, imported) =
     (case build_row (uuid (length imported)) r of
        None \<Rightarrow> import_rows uuid rs (transactions, imported)
      | Some tx \<Rightarrow> import_rows uuid rs (transactions @ [tx], imported @ [tx]))"

record import_summary =
  imported_count :: nat
  sample :: "Transaction list"

datatype import_response =
    BadRequest string "string option"
  | Imported import_summary

text \<open>\<open>POST /transactions/import/csv\<close>. The parser of the \<open>csv-parse\<close> package is the
  parameter \<open>parse\<close>: it gives the error or the rows to the callback, once. The upload
  is the text of the file, or nothing when the field \<open>file\<close> is missing.\<close>

definition import_csv ::
  "(string \<Rightarrow> string + row list) \<Rightarrow> (nat \<Rightarrow> string) \<Rightarrow> Transaction list
     \<Rightarrow> string option \<Rightarrow> Transaction list \<times> import_response" where
  "import_csv parse uuid transactions file =
     (case file of
        None \<Rightarrow> (transactions, BadRequest (''Missing file field 'file'' @ [CHR 0x27]) None)
      | Some csvText \<Rightarrow>
          (case parse csvText of
             Inl err \<Rightarrow> (transactions, BadRequest ''CSV parse error'' (Some err))
           | Inr rows \<Rightarrow>
               (let (transactions', imported) = import_rows uuid rows (transactions, [])
                in (transactions',
                    Imported \<lparr>imported_count = length imported,
                              sample = take 5 imported\<rparr>))))"

subsection \<open>Insights\<close>

text \<open>\<open>byCategory\<close> is an ordinary object used as a dictionary. A property of it holds a
  number or, after a concatenation, a string. Reading a key that the object does not own
  falls through to \<open>Object.prototype\<close>: for the member names of that prototype the read
  gives a function or object (\<open>VProto\<close>), for every other key \<open>undefined\<close>. Writing the
  key \<open>__proto__\<close> with a number or string leaves the object as it is.\<close>

datatype jsval = VNum jsnum | VStr string | VProto string

type_synonym obj = "string \<rightharpoonup> jsval"

definition object_prototype_keys :: "string list" where
  "object_prototype_keys =
     [''constructor'', ''__defineGetter__'', ''__defineSetter__'', ''hasOwnProperty'',
      ''__lookupGetter__'', ''__lookupSetter__'', ''isPrototypeOf'',
      ''propertyIsEnumerable'', ''toString'', ''valueOf'', ''__proto__'',
      ''toLocaleString'']"

definition obj_get :: "obj \<Rightarrow> string \<Rightarrow> jsval option" where
  "obj_get ob k =
     (case ob k of
        Some v \<Rightarrow> Some v
      | None \<Rightarrow> if k \<in> set object_prototype_keys then Some (VProto k) else None)"

definition obj_set :: "obj \<Rightarrow> string \<Rightarrow> jsval \<Rightarrow> obj" where
  "obj_set ob k v = (if k = ''__proto__'' then ob else ob(k \<mapsto> v))"

text \<open>\<open>v || 0\<close> for a value read from the object.\<close>

fun or_zero :: "jsval option \<Rightarrow> jsval" where
  "or_zero None = VNum (Fin 0)"
| "or_zero (Some (VNum n)) = (if truthy_num n then VNum n else VNum (Fin 0))"
| "or_zero (Some (VStr s)) = (if s \<noteq> [] then VStr s else VNum (Fin 0))"
| "or_zero (Some (VProto k)) = VProto k"

text \<open>\<open>v + spend\<close> with a number on the right: addition of numbers, concatenation
  otherwise. The texts that a number and a member of \<open>Object.prototype\<close> convert to are
  the parameters \<open>numText\<close> and \<open>protoText\<close>.\<close>

fun js_plus :: "(jsnum \<Rightarrow> string) \<Rightarrow> (string \<Rightarrow> string) \<Rightarrow> jsval \<Rightarrow> jsnum \<Rightarrow> jsval" where
  "js_plus numText protoText (VNum a) spend = VNum (jsadd a spend)"
| "js_plus numText protoText (VStr s) spend = VStr (s @ numText spend)"
| "js_plus numText protoText (VProto k) spend = VStr (protoText k @ numText spend)"

text \<open>The loop of \<open>GET /insights/totals\<close> over the state
  \<open>(income, expenses, byCategory)\<close>.\<close>

fun totals_loop ::
  "(jsnum \<Rightarrow> string) \<Rightarrow> (string \<Rightarrow> string) \<Rightarrow> Transaction list
     \<Rightarrow> jsnum \<times> jsnum \<times> obj \<Rightarrow> jsnum \<times> jsnum \<times> obj" where
  "totals_loop numText protoText [] st = st"
| "totals_loop numText protoText (t # ts) (income, expenses, byCategory) =
     (let cat = (if tx_category t \<noteq> [] then tx_category t else ''Uncategorized'')
      in if jsgt0 (tx_amount t)
         then totals_loop numText protoText ts
                (jsadd income (tx_amount t), expenses, byCategory)
         else
           let spend = jsabs (tx_amount t)
           in totals_loop numText protoText ts
                (income, jsadd expenses spend,
                 obj_set byCategory cat
                   (js_plus numText protoText (or_zero (obj_get byCategory cat)) spend)))"

record totals_response =
  t_income :: jsnum
  t_expenses :: jsnum
  t_net :: jsnum
  t_byCategory :: obj

definition insights_totals ::
  "(jsnum \<Rightarrow> string) \<Rightarrow> (string \<Rightarrow> string) \<Rightarrow> Transaction list \<Rightarrow> totals_response" where
  "insights_totals numText protoText transactions =
     (let (income, expenses, byCategory) =
            totals_loop numText protoText transactions (Fin 0, Fin 0, Map.empty)
      in \<lparr>t_income = income, t_expenses = expenses,
           t_net = jssub income expenses, t_byCategory = byCategory\<rparr>)"

text \<open>The loop of \<open>GET /insights/summary\<close> over \<open>(income, expenses)\<close>.\<close>

fun summary_loop :: "Transaction list \<Rightarrow> jsnum \<times> jsnum \<Rightarrow> jsnum \<times> jsnum" where
  "summary_loop [] st = st"
| "summary_loop (t # ts) (income, expenses) =
     (if jsgt0 (tx_amount t) then summary_loop ts (jsadd income (tx_amount t), expenses)
      else summary_loop ts (income, jsadd expenses (jsabs (tx_amount t))))"

record summary_response =
  s_income :: jsnum
  s_expenses :: jsnum
  s_net :: jsnum
  s_savingsRate :: jsnum

definition insights_summary :: "Transaction list \<Rightarrow> summary_response" where
  "insights_summary transactions =
     (let (income, expenses) = summary_loop transactions (Fin 0, Fin 0);
          net = jssub income expenses;
          savingsRate = (if jsgt0 income then jsdiv net income else Fin 0)
      in \<lparr>s_income = income, s_expenses = expenses, s_net = net,
           s_savingsRate = savingsRate\<rparr>)"

text \<open>\<open>GET /insights/advice\<close> has a loop of its own, written again.\<close>

fun advice_loop :: "Transaction list \<Rightarrow> jsnum \<times> jsnum \<Rightarrow> jsnum \<times> jsnum" where
  "advice_loop [] st = st"
| "advice_loop (t # ts) (income, expenses) =
     (if jsgt0 (tx_amount t) then advice_loop ts (jsadd income (tx_amount t), expenses)
      else advice_loop ts (income, jsadd expenses (jsabs (tx_amount t))))"

text \<open>The figures the advice is computed from: \<open>income\<close>, \<open>expenses\<close>, \<open>net\<close>,
  \<open>savingsRate\<close>, the local variables of the handler.\<close>

definition advice_figures :: "Transaction list \<Rightarrow> jsnum \<times> jsnum \<times> jsnum \<times> jsnum" where
  "advice_figures transactions =
     (let (income, expenses) = advice_loop transactions (Fin 0, Fin 0);
          net = jssub income expenses;
          savingsRate = (if jsgt0 income then jsdiv net income else Fin 0)
      in (income, expenses, net, savingsRate))"

datatype severity = info | warn | urgent

record advice_item =
  title :: string
  detail :: string
  severity :: severity

text \<open>The list of advice. \<open>toFixed\<close> is the number formatting of the language, a
  parameter; the dash of the two ranges is the three bytes of its UTF-8 form.\<close>

definition en_dash :: string where
  "en_dash = [CHR 0xE2, CHR 0x80, CHR 0x93]"

definition insights_advice ::
  "(jsnum \<Rightarrow> nat \<Rightarrow> string) \<Rightarrow> Transaction list \<Rightarrow> advice_item list" where
  "insights_advice toFixed transactions =
     (let (income, expenses, net, savingsRate) = advice_figures transactions;
          a1 = (if jslt net (Fin 0)
                then [\<lparr>title = ''Spending exceeds income'',
                       detail = ''You're down $'' @ toFixed (jsabs net) 2
                                @ ''. Start by cutting 1'' @ en_dash @ ''2 categories.'',
                       severity = urgent\<rparr>]
                else []);
          a2 = (if jsgt0 income \<and> jslt savingsRate (round64 (1 / 10))
                then a1 @ [\<lparr>title = ''Low savings rate'',
                            detail = ''Savings rate is ''
                                     @ toFixed (jsmul savingsRate (Fin 100)) 1
                                     @ ''%. Try automating 10%.'',
                            severity = warn\<rparr>]
                else a1)
      in if a2 = []
         then [\<lparr>title = ''You're on track'',
                 detail = ''Cash flow looks healthy. Next step: build a 3'' @ en_dash
                          @ ''6 month emergency fund.'',
                 severity = info\<rparr>]
         else a2)"

subsection \<open>The categorization heuristic as the specification words it\<close>

text \<open>The priority list of the specification: keyword sets and their labels, in order.\<close>

definition spec_keyword_rules :: "(string list \<times> string) list" where
  "spec_keyword_rules =
     [([''rent''], ''Housing''),
      ([''grocery'', ''supermarket'', ''trader'', ''whole foods''], ''Groceries''),
      ([''gas'', ''shell'', ''exxon'', ''bp''], ''Gas''),
      ([''uber'', ''lyft'', ''taxi''], ''Transport''),
      ([''netflix'', ''spotify'', ''hulu'', ''disney''], ''Subscriptions''),
      ([''electric'', ''utility'', ''water'', ''coned'', ''pseg''], ''Utilities''),
      ([''internet'', ''verizon'', ''optimum'', ''comcast''], ''Internet''),
      ([''coffee'', ''starbucks'', ''dunkin''], ''Coffee''),
      ([''chipotle'', ''mcdonald'', ''restaurant'', ''pizza''], ''Dining'')]"

text \<open>First match wins: the label of the first rule one of whose keywords occurs in the
  lower-cased name, \<open>Uncategorized\<close> when there is none.\<close>

fun spec_first_match :: "(string list \<times> string) list \<Rightarrow> string \<Rightarrow> string" where
  "spec_first_match [] n = ''Uncategorized''"
| "spec_first_match ((kws, label) # rules) n =
     (if list_ex (str_includes n) kws then label else spec_first_match rules n)"

definition spec_categorize :: "string \<Rightarrow> jsnum \<Rightarrow> string" where
  "spec_categorize name amount =
     (if jsgt0 amount then ''Income''
      else spec_first_match spec_keyword_rules (toLowerCase name))"

subsection \<open>Sign inference as the specification words it\<close>

definition spec_credit_keywords :: "string list" where
  "spec_credit_keywords = [''payment'', ''credit'', ''refund'', ''returned'', ''return'']"

text \<open>The cleaned name matches one of the credit keywords, or the bank category contains
  \<open>payment\<close> or \<open>credit\<close>, letter case ignored.\<close>

definition spec_is_credit :: "string \<Rightarrow> string \<Rightarrow> bool" where
  "spec_is_credit cleanName bankCategory =
     ((\<exists>k \<in> set spec_credit_keywords. str_includes (toLowerCase cleanName) k)
      \<or> str_includes (toLowerCase bankCategory) ''payment''
      \<or> str_includes (toLowerCase bankCategory) ''credit'')"

subsection \<open>Rows the import leaves out\<close>

text \<open>The condition of the \<open>continue\<close> in the loop: the date resolved to nothing or to
  the empty string, or the amount resolved to \<open>undefined\<close>.\<close>

definition unusable_row :: "row \<Rightarrow> bool" where
  "unusable_row r = (\<not> truthy_str (row_date r) \<or> row_amountRaw r = None)"

text \<open>The transactions of the rows that are not left out, in the order of the rows; the
  first has the identifier \<open>uuid k\<close>, the next \<open>uuid (k + 1)\<close>, and so on.\<close>

fun rows_built :: "(nat \<Rightarrow> string) \<Rightarrow> nat \<Rightarrow> row list \<Rightarrow> Transaction list" where
  "rows_built uuid k [] = []"
| "rows_built uuid k (r # rs) =
     (case build_row (uuid k) r of
        None \<Rightarrow> rows_built uuid k rs
      | Some tx \<Rightarrow> tx # rows_built uuid (Suc k) rs)"

subsection \<open>Runs of the totals loop without rounding\<close>

text \<open>An addition is exact when both operands are finite and the double it returns is
  their sum as rationals.\<close>

definition exact_add :: "jsnum \<Rightarrow> jsnum \<Rightarrow> bool" where
  "exact_add x y =
     (case (x, y) of
        (Fin a, Fin b) \<Rightarrow> jsadd x y = Fin (a + b)
      | _ \<Rightarrow> False)"

text \<open>\<open>exact_run ts st\<close>: on the collection \<open>ts\<close>, started in the state \<open>st\<close>, every
  addition that the loop of \<open>GET /insights/totals\<close> performs is exact, and every bucket
  it reads holds a number or nothing. The recursion follows the loop state by state.\<close>

fun exact_run ::
  "Transaction list \<Rightarrow> jsnum \<times> jsnum \<times> obj \<Rightarrow> bool" where
  "exact_run [] st = True"
| "exact_run (t # ts) (income, expenses, byCategory) =
     (let cat = (if tx_category t \<noteq> [] then tx_category t else ''Uncategorized'')
      in if jsgt0 (tx_amount t)
         then exact_add income (tx_amount t)
              \<and> exact_run ts (jsadd income (tx_amount t), expenses, byCategory)
         else
           let spend = jsabs (tx_amount t)
           in exact_add expenses spend
              \<and> (case or_zero (obj_get byCategory cat) of
                    VNum b \<Rightarrow>
                      exact_add b spend
                      \<and> exact_run ts
                          (income, jsadd expenses spend,
                           obj_set byCategory cat (VNum (jsadd b spend)))
                  | _ \<Rightarrow> False))"

text \<open>The key of the bucket of a transaction, and the sums of the collection as
  rationals: of the positive amounts, of the magnitudes of the other amounts, and of the
  magnitudes that go to one bucket; \<open>spend_keys\<close> are the buckets that exist at the end.\<close>

definition category_key :: "Transaction \<Rightarrow> string" where
  "category_key t = (if tx_category t \<noteq> [] then tx_category t else ''Uncategorized'')"

definition income_sum :: "Transaction list \<Rightarrow> rat" where
  "income_sum ts = sum_list (map (\<lambda>t. fin_val (tx_amount t)) (filter (\<lambda>t. jsgt0 (tx_amount t)) ts))"

definition spend_sum :: "Transaction list \<Rightarrow> rat" where
  "spend_sum ts =
     sum_list (map (\<lambda>t. fin_val (jsabs (tx_amount t))) (filter (\<lambda>t. \<not> jsgt0 (tx_amount t)) ts))"

definition bucket_sum :: "string \<Rightarrow> Transaction list \<Rightarrow> rat" where
  "bucket_sum c ts =
     sum_list (map (\<lambda>t. fin_val (jsabs (tx_amount t)))
       (filter (\<lambda>t. \<not> jsgt0 (tx_amount t) \<and> category_key t = c) ts))"

definition spend_keys :: "Transaction list \<Rightarrow> string set" where
  "spend_keys ts = category_key ` {t \<in> set ts. \<not> jsgt0 (tx_amount t)}"

text \<open>Invariants of the proofs: all buckets hold finite numbers and \<open>__proto__\<close> is not a
  key; all buckets hold natural numbers up to a bound.\<close>

definition bucket_val :: "obj \<Rightarrow> string \<Rightarrow> rat" where
  "bucket_val ob c = (case ob c of Some (VNum (Fin x)) \<Rightarrow> x | _ \<Rightarrow> 0)"

definition fin_obj :: "obj \<Rightarrow> bool" where
  "fin_obj ob = (ob ''__proto__'' = None \<and> (\<forall>c v. ob c = Some v \<longrightarrow> (\<exists>x. v = VNum (Fin x))))"

definition nat_obj :: "obj \<Rightarrow> nat \<Rightarrow> bool" where
  "nat_obj ob e = (\<forall>c v. ob c = Some v \<longrightarrow> (\<exists>n. v = VNum (Fin (of_nat n)) \<and> n \<le> e))"

text \<open>A whole number: a finite double without fractional part, or negative zero.\<close>

definition whole_amount :: "jsnum \<Rightarrow> bool" where
  "whole_amount x = (case x of Fin q \<Rightarrow> q = of_int \<lfloor>q\<rfloor> | NZero \<Rightarrow> True | _ \<Rightarrow> False)"

subsection \<open>Test data\<close>

text \<open>A source of identifiers for concrete runs.\<close>

definition sample_uuid :: "nat \<Rightarrow> string" where
  "sample_uuid k = ''id-'' @ replicate k (CHR ''x'')"

text \<open>Stand-ins for the two conversions to text that the totals take as parameters (the
  runs below never reach them), and a transaction with a given name, amount and
  category.\<close>

definition sample_numText :: "jsnum \<Rightarrow> string" where
  "sample_numText n = ''<number>''"

definition sample_protoText :: "string \<Rightarrow> string" where
  "sample_protoText k = ''function Object() { [native code] }''"

definition sample_tx :: "string \<Rightarrow> jsnum \<Rightarrow> string \<Rightarrow> Transaction" where
  "sample_tx nm a c =
     \<lparr>tx_id = ''id'', tx_date = ''2024-01-05'', tx_name = nm, tx_amount = a, tx_category = c\<rparr>"

section \<open>Lemmas on the arithmetic\<close>

subsection \<open>Powers of two and the exponent of a rational\<close>

lemma pow2_powi: "pow2 e = 2 powi e"
  by (simp add: pow2_def power_int_def inverse_eq_divide power_one_over)

lemma pow2_pos: "0 < pow2 e"
  by (simp add: pow2_powi)

lemma pow2_add: "pow2 (a + b) = pow2 a * pow2 b"
  by (simp add: pow2_powi power_int_add)

lemma pow2_mono: "a \<le> b \<Longrightarrow> pow2 a \<le> pow2 b"
  by (simp add: pow2_powi power_int_increasing)

lemma pow2_strict_mono: "a < b \<Longrightarrow> pow2 a < pow2 b"
  by (simp add: pow2_powi power_int_strict_increasing)

lemma pow2_less_iff: "pow2 a < pow2 b \<longleftrightarrow> a < b"
  using pow2_mono [of b a] pow2_strict_mono [of a b] by (cases "a < b") auto

lemma pow2_le_iff: "pow2 a \<le> pow2 b \<longleftrightarrow> a \<le> b"
  using pow2_mono [of a b] pow2_strict_mono [of b a] by (cases "a \<le> b") auto

lemma pow2_nat: "pow2 (int n) = 2 ^ n"
  by (simp add: pow2_def)

lemma ilog2_bounds:
  assumes "0 < q"
  shows "pow2 (ilog2 q) \<le> q" and "q < pow2 (ilog2 q + 1)"
proof -
  have "pow2 (ilog2 q) \<le> q \<and> q < pow2 (ilog2 q + 1)"
  proof (cases "1 \<le> q")
    case True
    define n where "n = \<lfloor>q\<rfloor>"
    have n1: "1 \<le> n" using True by (simp add: n_def le_floor_iff)
    then have n0: "0 < n" by simp
    have L1: "1 \<le> bitlen n" using n0 by (simp add: bitlen_alt_def)
    from bitlen_bounds [OF n0]
    have lo: "2 ^ nat (bitlen n - 1) \<le> n" and hi: "n < 2 ^ nat (bitlen n)" by auto
    have e: "ilog2 q = bitlen n - 1" using True by (simp add: ilog2_def n_def)
    have "pow2 (bitlen n - 1) = of_int (2 ^ nat (bitlen n - 1))"
      using L1 by (simp add: pow2_def)
    also have "\<dots> \<le> of_int n" using lo by (simp only: of_int_le_iff)
    also have "\<dots> \<le> q" by (simp add: n_def)
    finally have A: "pow2 (ilog2 q) \<le> q" by (simp add: e)
    have "n + 1 \<le> 2 ^ nat (bitlen n)" using hi by simp
    then have "(of_int (n + 1) :: rat) \<le> of_int (2 ^ nat (bitlen n))"
      by (simp only: of_int_le_iff)
    moreover have "q < of_int (n + 1)" unfolding n_def by linarith
    moreover have "pow2 (bitlen n) = of_int (2 ^ nat (bitlen n))"
      using L1 by (simp add: pow2_def)
    ultimately have B: "q < pow2 (ilog2 q + 1)" by (simp add: e)
    from A B show ?thesis ..
  next
    case False
    define r where "r = 1 / q"
    define m where "m = \<lceil>r\<rceil> - 1"
    have r1: "1 < r" using False assms by (simp add: r_def)
    have m1: "1 \<le> m" using r1 by (simp add: m_def less_ceiling_iff)
    then have m0: "0 < m" by simp
    have mr: "of_int m < r" by (simp add: m_def) linarith
    have rm: "r \<le> of_int (m + 1)" by (simp add: m_def)
    have L1: "1 \<le> bitlen m" using m0 by (simp add: bitlen_alt_def)
    from bitlen_bounds [OF m0]
    have lo: "2 ^ nat (bitlen m - 1) \<le> m" and hi: "m < 2 ^ nat (bitlen m)" by auto
    have e: "ilog2 q = - bitlen m" using False by (simp add: ilog2_def m_def r_def)
    have "m + 1 \<le> 2 ^ nat (bitlen m)" using hi by simp
    then have "(of_int (m + 1) :: rat) \<le> of_int (2 ^ nat (bitlen m))"
      by (simp only: of_int_le_iff)
    with rm have "r \<le> 2 ^ nat (bitlen m)" by simp
    then have "1 / q \<le> 2 ^ nat (bitlen m)" by (simp add: r_def)
    then have "1 / 2 ^ nat (bitlen m) \<le> q" using assms
      by (simp add: field_simps)
    moreover have "pow2 (- bitlen m) = 1 / 2 ^ nat (bitlen m)"
      using L1 by (simp add: pow2_def)
    ultimately have A: "pow2 (ilog2 q) \<le> q" by (simp add: e)
    have "(2 :: rat) ^ nat (bitlen m - 1) \<le> of_int m"
      using lo of_int_le_iff [of "2 ^ nat (bitlen m - 1)" m, where ?'a = rat] by simp
    with mr have "2 ^ nat (bitlen m - 1) < r" by linarith
    then have "2 ^ nat (bitlen m - 1) < 1 / q" by (simp add: r_def)
    then have "q < 1 / 2 ^ nat (bitlen m - 1)" using assms
      by (simp add: field_simps)
    moreover have "pow2 (- bitlen m + 1) = 1 / 2 ^ nat (bitlen m - 1)"
      using L1 by (cases "bitlen m = 1") (simp_all add: pow2_def)
    ultimately have B: "q < pow2 (ilog2 q + 1)" by (simp add: e)
    from A B show ?thesis ..
  qed
  then show "pow2 (ilog2 q) \<le> q" and "q < pow2 (ilog2 q + 1)" by simp_all
qed

lemma ilog2_unique:
  assumes "pow2 e \<le> q" and "q < pow2 (e + 1)"
  shows "ilog2 q = e"
proof -
  have q0: "0 < q" using assms(1) pow2_pos [of e] by linarith
  from ilog2_bounds [OF q0] have a: "pow2 (ilog2 q) \<le> q" and b: "q < pow2 (ilog2 q + 1)" .
  have "pow2 e < pow2 (ilog2 q + 1)" using assms(1) b by linarith
  then have "e < ilog2 q + 1" by (simp only: pow2_less_iff)
  moreover have "pow2 (ilog2 q) < pow2 (e + 1)" using assms(2) a by linarith
  then have "ilog2 q < e + 1" by (simp only: pow2_less_iff)
  ultimately show ?thesis by simp
qed

subsection \<open>Rounding to a double\<close>

lemma round_even_of_int: "round_even (of_int n) = n"
  by (simp add: round_even_def)

lemma round_even_lower: "of_int a \<le> x \<Longrightarrow> a \<le> round_even x"
proof -
  assume "of_int a \<le> x"
  then have "a \<le> \<lfloor>x\<rfloor>" by (simp add: le_floor_iff)
  then show ?thesis by (simp add: round_even_def Let_def)
qed

lemma round_even_upper: "x \<le> of_int b \<Longrightarrow> round_even x \<le> b"
proof -
  assume h: "x \<le> of_int b"
  show ?thesis
  proof (cases "x = of_int b")
    case True
    then show ?thesis by (simp add: round_even_of_int)
  next
    case False
    with h have "x < of_int b" by simp
    then have "\<lfloor>x\<rfloor> < b" by (simp add: floor_less_iff)
    then show ?thesis by (simp add: round_even_def Let_def)
  qed
qed

lemma round64_normal:
  assumes lo: "pow2 e \<le> q" and hi: "q < pow2 (e + 1)"
    and e1: "- 1022 \<le> e" and e2: "e < 1023"
  shows "round64 q = Fin (of_int (round_even (q / pow2 (e - 52))) * pow2 (e - 52))"
proof -
  have q0: "0 < q" using lo pow2_pos [of e] by linarith
  have il: "ilog2 q = e" using lo hi by (rule ilog2_unique)
  define u where "u = pow2 (e - 52)"
  have u0: "0 < u" by (simp add: u_def pow2_pos)
  have p52: "pow2 52 = 2 ^ 52" and p53: "pow2 53 = 2 ^ 53" by (simp_all add: pow2_def)
  have eu: "pow2 e = 2 ^ 52 * u"
    using pow2_add [of 52 "e - 52"] by (simp add: u_def p52)
  have "e + 1 = 53 + (e - 52)" by simp
  then have "pow2 (e + 1) = pow2 (53 + (e - 52))" by (rule arg_cong)
  then have eu1: "pow2 (e + 1) = 2 ^ 53 * u"
    by (simp only: pow2_add p53 u_def)
  define k where "k = round_even (q / u)"
  have "2 ^ 52 * u \<le> q" using lo unfolding eu .
  then have "of_int (2 ^ 52) \<le> q / u" using u0 by (simp add: field_simps)
  then have k1: "2 ^ 52 \<le> k" unfolding k_def by (rule round_even_lower)
  have "q < 2 ^ 53 * u" using hi unfolding eu1 .
  then have "q / u \<le> of_int (2 ^ 53)" using u0 by (simp add: field_simps)
  then have k2: "k \<le> 2 ^ 53" unfolding k_def by (rule round_even_upper)
  have kpos: "0 < (of_int k :: rat)" using k1 by simp
  have r0: "0 < of_int k * u" using kpos u0 by simp
  have "(of_int k :: rat) \<le> of_int (2 ^ 53)" using k2 by (simp only: of_int_le_iff)
  then have "of_int k * u \<le> 2 ^ 53 * u" using u0 by simp
  also have "\<dots> = pow2 (e + 1)" by (simp add: eu1)
  also have "\<dots> < pow2 1024" using e2 by (simp only: pow2_less_iff)
  finally have r1: "of_int k * u < pow2 1024" .
  have m: "max (ilog2 q) (- 1022) = e" using il e1 by simp
  show ?thesis
    using q0 r0 r1 m by (simp add: round64_def Let_def u_def [symmetric] k_def [symmetric])
qed

lemma round64_minus: "q \<noteq> 0 \<Longrightarrow> round64 (- q) = jsneg (round64 q)"
  by (cases "0 < q") (auto simp add: round64_def Let_def)

lemma round64_exact_pos:
  assumes lo: "pow2 e \<le> q" and hi: "q < pow2 (e + 1)"
    and e1: "- 1022 \<le> e" and e2: "e < 1023"
    and int: "q / pow2 (e - 52) = of_int n"
  shows "round64 q = Fin q"
proof -
  have "pow2 (e - 52) \<noteq> 0" using pow2_pos [of "e - 52"] by simp
  with int have "q = of_int n * pow2 (e - 52)" by (simp add: field_simps)
  with round64_normal [OF lo hi e1 e2] int show ?thesis
    by (simp add: round_even_of_int)
qed

lemma round64_nat:
  assumes "n \<le> 2 ^ 53"
  shows "round64 (of_nat n) = Fin (of_nat n)"
proof (cases "n = 0")
  case True
  then show ?thesis by (simp add: round64_def)
next
  case False
  define q :: rat where "q = of_nat n"
  have q0: "0 < q" using False by (simp add: q_def)
  have q1: "1 \<le> q" using False by (simp add: q_def)
  define e where "e = ilog2 q"
  from ilog2_bounds [OF q0] have lo: "pow2 e \<le> q" and hi: "q < pow2 (e + 1)"
    by (simp_all add: e_def)
  have "pow2 0 < pow2 (e + 1)" using q1 hi by (simp add: pow2_def)
  then have "0 < e + 1" by (simp only: pow2_less_iff)
  then have e0: "0 \<le> e" by linarith
  have qle: "q \<le> pow2 53" using assms
    by (simp add: q_def pow2_def)
  have "pow2 e \<le> pow2 53" using lo qle by linarith
  then have e53: "e \<le> 53" by (simp only: pow2_le_iff)
  have "\<exists>k. q / pow2 (e - 52) = of_int k"
  proof (cases "e \<le> 52")
    case True
    have "pow2 (e - 52) * pow2 (52 - e) = 1"
      using pow2_add [of "e - 52" "52 - e"] by (simp add: pow2_def)
    then have "q / pow2 (e - 52) = q * pow2 (52 - e)"
      using pow2_pos [of "e - 52"] by (simp add: field_simps)
    also have "\<dots> = of_int (int n * 2 ^ nat (52 - e))"
      using True by (simp add: q_def pow2_def)
    finally show ?thesis by blast
  next
    case False
    with e53 have e: "e = 53" by simp
    have "pow2 53 \<le> q" using lo by (simp add: e)
    with qle have "q = pow2 53" by simp
    then have "q / pow2 (e - 52) = of_int (2 ^ 52)" by (simp add: e pow2_def)
    then show ?thesis by blast
  qed
  then obtain k where k: "q / pow2 (e - 52) = of_int k" ..
  have "round64 q = Fin q"
    using lo hi _ _ k by (rule round64_exact_pos) (use e0 e53 in simp_all)
  then show ?thesis by (simp add: q_def)
qed

lemma round_even_near:
  assumes "of_int k - 1 / 2 < x" and "x < of_int k + 1 / 2"
  shows "round_even x = k"
proof (cases "of_int k \<le> x")
  case True
  then have "\<lfloor>x\<rfloor> = k" using assms(2) by (simp add: floor_eq_iff)
  then show ?thesis using assms(2) by (simp add: round_even_def Let_def)
next
  case False
  then have "\<lfloor>x\<rfloor> = k - 1" using assms(1) by (simp add: floor_eq_iff)
  then show ?thesis using assms(1) False by (simp add: round_even_def Let_def)
qed

lemma round_even_tie:
  assumes "x = of_int k + 1 / 2"
  shows "round_even x = (if even k then k else k + 1)"
proof -
  have "\<lfloor>x\<rfloor> = k" using assms by (simp add: floor_eq_iff)
  then show ?thesis using assms by (simp add: round_even_def Let_def)
qed

lemma round64_near:
  assumes "pow2 e \<le> q" and "q < pow2 (e + 1)" and "- 1022 \<le> e" and "e < 1023"
    and "of_int k - 1 / 2 < q / pow2 (e - 52)" and "q / pow2 (e - 52) < of_int k + 1 / 2"
  shows "round64 q = Fin (of_int k * pow2 (e - 52))"
  using round64_normal [OF assms(1-4)] round_even_near [OF assms(5,6)] by simp

lemma round64_tie:
  assumes "pow2 e \<le> q" and "q < pow2 (e + 1)" and "- 1022 \<le> e" and "e < 1023"
    and "q / pow2 (e - 52) = of_int k + 1 / 2"
  shows "round64 q = Fin (of_int (if even k then k else k + 1) * pow2 (e - 52))"
  using round64_normal [OF assms(1-4)] round_even_tie [OF assms(5)] by simp

section \<open>Lemmas on strings, amounts and rows\<close>

lemmas parse_defs = Number_of_string_def trim_def is_ws_def parse_nondecimal_def
  parse_unsigned_decimal_def parse_exponent_def is_digit_def digits_val_def digit_val_def
  toLowerChar_def pow10_def Let_def

lemmas row_defs = row_date_def row_rawName_def row_amountRaw_def row_bankCategory_def
  js_or_def truthy_str_def str_or_empty_def String_of_def

subsection \<open>Trimming and the conversion to a number\<close>

lemma trim_ws_append:
  assumes "\<forall>c \<in> set w1. is_ws c" and "\<forall>c \<in> set w2. is_ws c"
  shows "trim (w1 @ x @ w2) = trim x"
proof -
  have d1: "dropWhile is_ws (w1 @ x @ w2) = dropWhile is_ws (x @ w2)"
    using assms(1) by (simp add: dropWhile_append2)
  show ?thesis
  proof (cases "\<forall>c \<in> set x. is_ws c")
    case True
    then have e1: "dropWhile is_ws (x @ w2) = []" using assms(2) by simp
    have e2: "dropWhile is_ws x = []" using True by simp
    have t1: "trim (w1 @ x @ w2) = []" unfolding trim_def d1 e1 by simp
    have t2: "trim x = []" unfolding trim_def e2 by simp
    from t1 t2 show ?thesis by simp
  next
    case False
    then obtain c where c: "c \<in> set x" "\<not> is_ws c" by blast
    then have d2: "dropWhile is_ws (x @ w2) = dropWhile is_ws x @ w2"
      by (simp add: dropWhile_append1)
    have "dropWhile is_ws (rev w2 @ rev (dropWhile is_ws x))
                 = dropWhile is_ws (rev (dropWhile is_ws x))"
      by (rule dropWhile_append2) (use assms(2) in simp)
    then show ?thesis by (simp add: trim_def d1 d2)
  qed
qed

lemma trim_decomp:
  "\<exists>w1 w2. s = w1 @ trim s @ w2 \<and> (\<forall>c \<in> set w1. is_ws c) \<and> (\<forall>c \<in> set w2. is_ws c)"
proof -
  define b where "b = dropWhile is_ws s"
  define w1 where "w1 = takeWhile is_ws s"
  define w2 where "w2 = rev (takeWhile is_ws (rev b))"
  have s: "s = w1 @ b" by (simp add: w1_def b_def)
  have "b = rev (dropWhile is_ws (rev b)) @ rev (takeWhile is_ws (rev b))"
    by (metis rev_append rev_rev_ident takeWhile_dropWhile_id)
  then have b: "b = trim s @ w2" unfolding trim_def b_def w2_def .
  have a1: "\<forall>c \<in> set w1. is_ws c" by (auto simp add: w1_def dest: set_takeWhileD)
  have a2: "\<forall>c \<in> set w2. is_ws c" by (auto simp add: w2_def dest: set_takeWhileD)
  from s b a1 a2 show ?thesis by blast
qed

lemma set_trim: "set (trim s) \<subseteq> set s"
proof -
  have "set (trim s) = set (dropWhile is_ws (rev (dropWhile is_ws s)))" by (simp add: trim_def)
  also have "\<dots> \<subseteq> set (rev (dropWhile is_ws s))" by (rule set_dropWhileD [THEN subsetI])
  also have "\<dots> \<subseteq> set s" by (auto dest: set_dropWhileD)
  finally show ?thesis .
qed

lemma Number_of_string_trim_cong:
  "trim s = trim s' \<Longrightarrow> Number_of_string s = Number_of_string s'"
  by (simp add: Number_of_string_def)

lemma Number_of_string_filter_trim:
  assumes "\<And>c. is_ws c \<Longrightarrow> P c"
  shows "Number_of_string (filter P (trim s)) = Number_of_string (filter P s)"
proof -
  from trim_decomp [of s] obtain w1 w2 where
    s: "s = w1 @ trim s @ w2" and w1: "\<forall>c \<in> set w1. is_ws c" and w2: "\<forall>c \<in> set w2. is_ws c"
    by blast
  have f1: "filter P w1 = w1" using w1 assms by (simp add: filter_id_conv)
  have f2: "filter P w2 = w2" using w2 assms by (simp add: filter_id_conv)
  have "filter P s = filter P (w1 @ trim s @ w2)" using s by simp
  then have "filter P s = w1 @ filter P (trim s) @ w2" by (simp add: f1 f2)
  then have "trim (filter P s) = trim (filter P (trim s))"
    using trim_ws_append [OF w1 w2] by simp
  then show ?thesis by (rule Number_of_string_trim_cong [symmetric])
qed

lemma ws_not_stripped: "is_ws c \<Longrightarrow> c \<notin> set '',$()''"
  by (auto simp add: is_ws_def)

lemma normalizeAmount_alt:
  "normalizeAmount raw =
     (if startsWith (trim raw) ''('' \<and> endsWith (trim raw) '')''
      then jsneg (Number_of_string (filter (\<lambda>c. c \<notin> set '',$()'') raw))
      else Number_of_string (filter (\<lambda>c. c \<notin> set '',$()'') raw))"
  using Number_of_string_filter_trim [of "\<lambda>c. c \<notin> set '',$()''" raw] ws_not_stripped
  by (simp add: normalizeAmount_def Let_def)

lemma startsWith_hd: "startsWith s [c] \<Longrightarrow> c \<in> set s"
  by (cases s) simp_all

lemma trim_wrapped: "trim (''('' @ a @ '')'') = ''('' @ a @ '')''"
  by (simp add: trim_def is_ws_def)

subsection \<open>Signs\<close>

lemma looksLikeCredit_spec:
  "looksLikeCredit cleanName bankCategory = spec_is_credit cleanName (str_or_empty bankCategory)"
  by (simp add: looksLikeCredit_def spec_is_credit_def regex_alt_test_i_def
      spec_credit_keywords_def)

lemma jsabs_jsneg: "jsabs (jsneg x) = jsabs x"
  by (cases x) simp_all

lemma sign_neg_jsabs: "\<not> sign_neg (jsabs x)"
  by (cases x) simp_all

lemma sign_neg_jsneg_jsabs: "x \<noteq> NaN \<Longrightarrow> sign_neg (jsneg (jsabs x))"
  by (cases x) simp_all

lemma jsabs_neq_jsneg: "x \<noteq> NaN \<Longrightarrow> jsabs x \<noteq> jsneg (jsabs x)"
  by (cases x) auto

subsection \<open>Rows\<close>

lemma build_row_None: "(build_row uuid r = None) = unusable_row r"
  by (simp add: build_row_def unusable_row_def Let_def)

lemma length_rows_built:
  "length (rows_built uuid k rows) = length (filter (\<lambda>r. \<not> unusable_row r) rows)"
proof (induction rows arbitrary: k)
  case Nil
  show ?case by simp
next
  case (Cons r rows)
  show ?case
  proof (cases "build_row (uuid k) r")
    case None
    then have "unusable_row r" using build_row_None [of "uuid k" r] by simp
    with None Cons show ?thesis by simp
  next
    case (Some tx)
    then have "\<not> unusable_row r" using build_row_None [of "uuid k" r] by simp
    with Some Cons show ?thesis by simp
  qed
qed

lemma import_rows_built:
  "import_rows uuid rows (txs, imp) =
     (txs @ rows_built uuid (length imp) rows, imp @ rows_built uuid (length imp) rows)"
proof (induction rows arbitrary: txs imp)
  case Nil
  show ?case by simp
next
  case (Cons r rows)
  show ?case
    by (cases "build_row (uuid (length imp)) r") (simp_all add: Cons)
qed

lemma categorize_nonempty: "categorize n a \<noteq> []"
  by (simp add: categorize_def Let_def)

section \<open>Lemmas on the aggregation\<close>

subsection \<open>The three loops\<close>

lemma totals_loop_summary:
  "(case totals_loop nt pt ts (i, e, b) of (i', e', b') \<Rightarrow> (i', e')) = summary_loop ts (i, e)"
  by (induction ts arbitrary: i e b) (simp_all add: Let_def)

lemma advice_loop_summary: "advice_loop ts st = summary_loop ts st"
proof (induction ts arbitrary: st)
  case Nil
  show ?case by simp
next
  case (Cons t ts)
  show ?case by (cases st) (simp add: Cons)
qed

subsection \<open>The totals loop in closed form when no addition rounds\<close>

lemma exact_add_Fin: "exact_add x y \<Longrightarrow> \<exists>a b. x = Fin a \<and> y = Fin b \<and> jsadd x y = Fin (a + b)"
  by (cases x; cases y) (simp_all add: exact_add_def)

lemma or_zero_fin_obj:
  assumes "fin_obj ob" and "or_zero (obj_get ob c) = VNum b"
  shows "b = Fin (bucket_val ob c) \<and> c \<noteq> ''__proto__''"
proof (cases "ob c")
  case None
  with assms(2) show ?thesis
    by (auto simp add: obj_get_def bucket_val_def object_prototype_keys_def split: if_splits)
next
  case (Some v)
  with assms(1) obtain x where v: "v = VNum (Fin x)" by (auto simp add: fin_obj_def)
  from Some assms(1) have "c \<noteq> ''__proto__''" by (auto simp add: fin_obj_def)
  with Some v assms(2) show ?thesis
    by (auto simp add: obj_get_def bucket_val_def split: if_splits)
qed

lemma fin_obj_set: "fin_obj ob \<Longrightarrow> c \<noteq> ''__proto__'' \<Longrightarrow> fin_obj (obj_set ob c (VNum (Fin x)))"
  by (auto simp add: fin_obj_def obj_set_def)

lemma bucket_sum_no_key: "c \<notin> spend_keys ts \<Longrightarrow> bucket_sum c ts = 0"
proof -
  assume "c \<notin> spend_keys ts"
  then have "filter (\<lambda>t. \<not> jsgt0 (tx_amount t) \<and> category_key t = c) ts = []"
    by (auto simp add: spend_keys_def filter_empty_conv)
  then show ?thesis by (simp add: bucket_sum_def)
qed

lemma totals_loop_exact:
  assumes "exact_run ts (Fin i, Fin e, ob)" and "fin_obj ob"
  shows "totals_loop nt pt ts (Fin i, Fin e, ob) =
           (Fin (i + income_sum ts), Fin (e + spend_sum ts),
            (\<lambda>c. if c \<in> spend_keys ts then Some (VNum (Fin (bucket_val ob c + bucket_sum c ts)))
                 else ob c))"
  using assms
proof (induction ts arbitrary: i e ob)
  case Nil
  show ?case by (simp add: income_sum_def spend_sum_def spend_keys_def)
next
  case (Cons t ts)
  show ?case
  proof (cases "jsgt0 (tx_amount t)")
    case True
    from Cons.prems(1) True have ea: "exact_add (Fin i) (tx_amount t)"
      and er: "exact_run ts (jsadd (Fin i) (tx_amount t), Fin e, ob)"
      by (simp_all add: Let_def)
    from exact_add_Fin [OF ea] obtain a where a: "tx_amount t = Fin a"
      and s: "jsadd (Fin i) (tx_amount t) = Fin (i + a)" by auto
    from er s have er': "exact_run ts (Fin (i + a), Fin e, ob)" by simp
    have step: "totals_loop nt pt (t # ts) (Fin i, Fin e, ob)
            = totals_loop nt pt ts (Fin (i + a), Fin e, ob)"
      using True s by (simp add: Let_def)
    have keys: "spend_keys (t # ts) = spend_keys ts"
      using True by (auto simp add: spend_keys_def)
    have bs: "\<And>d. bucket_sum d (t # ts) = bucket_sum d ts"
      using True by (simp add: bucket_sum_def)
    have sums: "income_sum (t # ts) = a + income_sum ts" "spend_sum (t # ts) = spend_sum ts"
      using True a by (simp_all add: income_sum_def spend_sum_def)
    show ?thesis
      unfolding step Cons.IH [OF er' Cons.prems(2)] keys bs sums by (simp add: add.assoc)
  next
    case False
    define c where "c = category_key t"
    define spend where "spend = jsabs (tx_amount t)"
    from Cons.prems(1) False have ea: "exact_add (Fin e) spend"
      by (simp add: Let_def spend_def)
    from exact_add_Fin [OF ea] obtain s where sp: "spend = Fin s"
      and se: "jsadd (Fin e) spend = Fin (e + s)" by auto
    from Cons.prems(1) False obtain b where
      b: "or_zero (obj_get ob c) = VNum b" and eb: "exact_add b spend"
      and er: "exact_run ts (Fin i, jsadd (Fin e) spend, obj_set ob c (VNum (jsadd b spend)))"
      by (auto simp add: Let_def spend_def c_def category_key_def split: jsval.splits)
    from or_zero_fin_obj [OF Cons.prems(2) b] have bv: "b = Fin (bucket_val ob c)"
      and cp: "c \<noteq> ''__proto__''" by simp_all
    from exact_add_Fin [OF eb] bv sp have sb: "jsadd b spend = Fin (bucket_val ob c + s)"
      by auto
    define ob' where "ob' = obj_set ob c (VNum (Fin (bucket_val ob c + s)))"
    have fo: "fin_obj ob'" unfolding ob'_def using Cons.prems(2) cp by (rule fin_obj_set)
    from er se sb have er': "exact_run ts (Fin i, Fin (e + s), ob')" by (simp add: ob'_def)
    have step: "totals_loop nt pt (t # ts) (Fin i, Fin e, ob)
            = totals_loop nt pt ts (Fin i, Fin (e + s), ob')"
      using False b se sb
      by (simp add: Let_def spend_def [symmetric] c_def [symmetric] category_key_def [symmetric]
          ob'_def)
    have s_val: "fin_val (jsabs (tx_amount t)) = s" using sp by (simp add: spend_def)
    have ob'_c: "ob' c = Some (VNum (Fin (bucket_val ob c + s)))"
      using cp by (simp add: ob'_def obj_set_def)
    have ob'_other: "\<And>d. d \<noteq> c \<Longrightarrow> ob' d = ob d"
      by (simp add: ob'_def obj_set_def)
    have bv_c: "bucket_val ob' c = bucket_val ob c + s"
      by (simp add: bucket_val_def ob'_c)
    have bv_other: "\<And>d. d \<noteq> c \<Longrightarrow> bucket_val ob' d = bucket_val ob d"
      by (simp add: bucket_val_def ob'_other)
    have keys: "spend_keys (t # ts) = insert c (spend_keys ts)"
      using False by (auto simp add: spend_keys_def c_def)
    have bs_c: "bucket_sum c (t # ts) = s + bucket_sum c ts"
      using False by (simp add: bucket_sum_def c_def s_val)
    have bs_other: "\<And>d. d \<noteq> c \<Longrightarrow> bucket_sum d (t # ts) = bucket_sum d ts"
      using False by (auto simp add: bucket_sum_def c_def)
    have m: "(\<lambda>d. if d \<in> spend_keys ts then Some (VNum (Fin (bucket_val ob' d + bucket_sum d ts)))
                   else ob' d)
           = (\<lambda>d. if d \<in> spend_keys (t # ts)
                   then Some (VNum (Fin (bucket_val ob d + bucket_sum d (t # ts))))
                   else ob d)"
    proof
      fix d
      show "(if d \<in> spend_keys ts then Some (VNum (Fin (bucket_val ob' d + bucket_sum d ts)))
             else ob' d)
          = (if d \<in> spend_keys (t # ts)
             then Some (VNum (Fin (bucket_val ob d + bucket_sum d (t # ts))))
             else ob d)"
      proof (cases "d = c")
        case True
        then show ?thesis
          by (simp add: keys bv_c bs_c ob'_c add.assoc bucket_sum_no_key)
      next
        case False
        then show ?thesis
          by (simp add: keys bv_other bs_other ob'_other)
      qed
    qed
    have sums: "income_sum (t # ts) = income_sum ts" "spend_sum (t # ts) = s + spend_sum ts"
      using False by (simp_all add: income_sum_def spend_sum_def s_val)
    show ?thesis
      unfolding step Cons.IH [OF er' fo] m sums by (simp add: add.assoc)
  qed
qed

subsection \<open>Sums of a permuted collection\<close>

lemma income_sum_mset:
  "income_sum ts =
     sum_mset (image_mset (\<lambda>t. fin_val (tx_amount t))
       (filter_mset (\<lambda>t. jsgt0 (tx_amount t)) (mset ts)))"
  by (simp add: income_sum_def sum_mset_sum_list [symmetric])

lemma spend_sum_mset:
  "spend_sum ts =
     sum_mset (image_mset (\<lambda>t. fin_val (jsabs (tx_amount t)))
       (filter_mset (\<lambda>t. \<not> jsgt0 (tx_amount t)) (mset ts)))"
  by (simp add: spend_sum_def sum_mset_sum_list [symmetric])

lemma bucket_sum_mset:
  "bucket_sum c ts =
     sum_mset (image_mset (\<lambda>t. fin_val (jsabs (tx_amount t)))
       (filter_mset (\<lambda>t. \<not> jsgt0 (tx_amount t) \<and> category_key t = c) (mset ts)))"
  by (simp add: bucket_sum_def sum_mset_sum_list [symmetric])

lemma spend_keys_mset:
  "spend_keys ts = category_key ` {t \<in> set_mset (mset ts). \<not> jsgt0 (tx_amount t)}"
  by (simp add: spend_keys_def)

lemma sums_permute:
  assumes "mset ts = mset ts'"
  shows "income_sum ts = income_sum ts'" and "spend_sum ts = spend_sum ts'"
    and "bucket_sum c ts = bucket_sum c ts'" and "spend_keys ts = spend_keys ts'"
  by (simp_all only: income_sum_mset spend_sum_mset bucket_sum_mset spend_keys_mset assms)

lemma fin_obj_empty: "fin_obj Map.empty"
  by (simp add: fin_obj_def)

lemma bucket_val_empty: "bucket_val (\<lambda>x. None) c = 0"
  by (simp add: bucket_val_def)

lemma insights_totals_exact:
  assumes "exact_run ts (Fin 0, Fin 0, Map.empty)"
  shows "insights_totals nt pt ts =
           \<lparr>t_income = Fin (income_sum ts), t_expenses = Fin (spend_sum ts),
            t_net = jssub (Fin (income_sum ts)) (Fin (spend_sum ts)),
            t_byCategory =
              (\<lambda>c. if c \<in> spend_keys ts then Some (VNum (Fin (bucket_sum c ts))) else None)\<rparr>"
  using totals_loop_exact [OF assms fin_obj_empty, of nt pt]
  by (simp add: insights_totals_def bucket_val_empty cong: if_cong)

subsection \<open>Whole amounts are added without rounding\<close>

lemma income_sum_nonneg: "0 \<le> income_sum ts"
proof -
  have "\<And>t. t \<in> set (filter (\<lambda>t. jsgt0 (tx_amount t)) ts) \<Longrightarrow> 0 \<le> fin_val (tx_amount t)"
  proof -
    fix t assume "t \<in> set (filter (\<lambda>t. jsgt0 (tx_amount t)) ts)"
    then have "jsgt0 (tx_amount t)" by simp
    then show "0 \<le> fin_val (tx_amount t)" by (cases "tx_amount t") simp_all
  qed
  then show ?thesis unfolding income_sum_def by (intro sum_list_nonneg) auto
qed

lemma spend_sum_nonneg: "0 \<le> spend_sum ts"
proof -
  have "\<And>x. 0 \<le> fin_val (jsabs x)" by (case_tac x) simp_all
  then show ?thesis unfolding spend_sum_def by (intro sum_list_nonneg) auto
qed

lemma jsadd_nat_exact:
  "m + n \<le> 2 ^ 53 \<Longrightarrow> exact_add (Fin (of_nat m)) (Fin (of_nat n)) \<and>
     jsadd (Fin (of_nat m)) (Fin (of_nat n)) = Fin (of_nat (m + n))"
  using round64_nat [of "m + n"] by (simp add: exact_add_def)

lemma whole_positive:
  assumes "whole_amount x" and "jsgt0 x"
  shows "\<exists>n. x = Fin (of_nat n) \<and> fin_val x = of_nat n"
proof -
  from assms obtain q where x: "x = Fin q" and q: "q = of_int \<lfloor>q\<rfloor>" and p: "0 < q"
    by (cases x) (simp_all add: whole_amount_def)
  from p have "0 \<le> \<lfloor>q\<rfloor>" by simp
  then have "(of_int \<lfloor>q\<rfloor> :: rat) = of_nat (nat \<lfloor>q\<rfloor>)" by simp
  with q have "q = of_nat (nat \<lfloor>q\<rfloor>)" by simp
  with x show ?thesis by auto
qed

lemma whole_spend:
  assumes "whole_amount x" and "\<not> jsgt0 x"
  shows "\<exists>n. jsabs x = Fin (of_nat n) \<and> fin_val (jsabs x) = of_nat n"
proof (cases x)
  case (Fin q)
  with assms have q: "q = of_int \<lfloor>q\<rfloor>" and p: "q \<le> 0" by (simp_all add: whole_amount_def)
  have "\<bar>q\<bar> = of_int \<bar>\<lfloor>q\<rfloor>\<bar>" using q by (metis of_int_abs)
  also have "\<dots> = of_nat (nat \<bar>\<lfloor>q\<rfloor>\<bar>)" by simp
  finally have "\<bar>q\<bar> = of_nat (nat \<bar>\<lfloor>q\<rfloor>\<bar>)" .
  then have "jsabs x = Fin (of_nat (nat \<bar>\<lfloor>q\<rfloor>\<bar>))" using Fin by (simp only: jsabs.simps)
  then show ?thesis by (metis fin_val.simps(1))
next
  case NZero
  then have "jsabs x = Fin (of_nat 0)" by simp
  then show ?thesis by (metis fin_val.simps(1))
qed (use assms in \<open>simp_all add: whole_amount_def\<close>)

lemma whole_amounts_exact_run:
  assumes "\<forall>t \<in> set ts. whole_amount (tx_amount t) \<and> category_key t \<notin> set object_prototype_keys"
    and "of_nat i + income_sum ts \<le> 2 ^ 53" and "of_nat e + spend_sum ts \<le> 2 ^ 53"
    and "nat_obj ob e"
  shows "exact_run ts (Fin (of_nat i), Fin (of_nat e), ob)"
  using assms
proof (induction ts arbitrary: i e ob)
  case Nil
  show ?case by simp
next
  case (Cons t ts)
  from Cons.prems(1) have w: "whole_amount (tx_amount t)"
    and k: "category_key t \<notin> set object_prototype_keys"
    and rest: "\<forall>t \<in> set ts. whole_amount (tx_amount t) \<and> category_key t \<notin> set object_prototype_keys"
    by simp_all
  show ?case
  proof (cases "jsgt0 (tx_amount t)")
    case True
    from whole_positive [OF w True] obtain n where a: "tx_amount t = Fin (of_nat n)" by auto
    have sm: "income_sum (t # ts) = of_nat n + income_sum ts"
      "spend_sum (t # ts) = spend_sum ts"
      using True a by (simp_all add: income_sum_def spend_sum_def)
    have "(of_nat (i + n) :: rat) \<le> 2 ^ 53"
      using Cons.prems(2) income_sum_nonneg [of ts] by (simp add: sm)
    then have b: "i + n \<le> 2 ^ 53"
      by (metis of_nat_le_iff of_nat_numeral of_nat_power)
    have i': "of_nat (i + n) + income_sum ts \<le> 2 ^ 53"
      using Cons.prems(2) by (simp add: sm add.assoc)
    have e': "of_nat e + spend_sum ts \<le> 2 ^ 53" using Cons.prems(3) by (simp add: sm)
    from Cons.IH [OF rest i' e' Cons.prems(4)] jsadd_nat_exact [OF b] True a
    show ?thesis by (simp add: Let_def)
  next
    case False
    define c where "c = category_key t"
    from whole_spend [OF w False] obtain m where s: "jsabs (tx_amount t) = Fin (of_nat m)"
      by auto
    have sm: "income_sum (t # ts) = income_sum ts"
      "spend_sum (t # ts) = of_nat m + spend_sum ts"
      using False s by (simp_all add: income_sum_def spend_sum_def)
    have "(of_nat (e + m) :: rat) \<le> 2 ^ 53"
      using Cons.prems(3) spend_sum_nonneg [of ts] by (simp add: sm)
    then have b: "e + m \<le> 2 ^ 53"
      by (metis of_nat_le_iff of_nat_numeral of_nat_power)
    have i': "of_nat i + income_sum ts \<le> 2 ^ 53" using Cons.prems(2) by (simp add: sm)
    have e': "of_nat (e + m) + spend_sum ts \<le> 2 ^ 53"
      using Cons.prems(3) by (simp add: sm add.assoc)
    have cp: "c \<noteq> ''__proto__''" using k by (auto simp add: c_def object_prototype_keys_def)
    have "\<exists>n. or_zero (obj_get ob c) = VNum (Fin (of_nat n)) \<and> n \<le> e"
    proof (cases "ob c")
      case None
      then have "or_zero (obj_get ob c) = VNum (Fin (of_nat 0))"
        using k by (simp add: obj_get_def c_def)
      then show ?thesis by blast
    next
      case (Some v)
      with Cons.prems(4) obtain n where v: "v = VNum (Fin (of_nat n))" and n: "n \<le> e"
        by (auto simp add: nat_obj_def)
      have "or_zero (obj_get ob c) = VNum (Fin (of_nat n))"
        using Some v by (simp add: obj_get_def)
      with n show ?thesis by blast
    qed
    then obtain n where oz: "or_zero (obj_get ob c) = VNum (Fin (of_nat n))" and n: "n \<le> e"
      by blast
    from n b have bn: "n + m \<le> 2 ^ 53" by simp
    define ob' where "ob' = obj_set ob c (VNum (Fin (of_nat (n + m))))"
    have no: "nat_obj ob' (e + m)"
      unfolding nat_obj_def
    proof (intro allI impI)
      fix d v assume h: "ob' d = Some v"
      show "\<exists>n. v = VNum (Fin (of_nat n)) \<and> n \<le> e + m"
      proof (cases "d = c")
        case True
        with h cp have "v = VNum (Fin (of_nat (n + m)))" by (simp add: ob'_def obj_set_def)
        moreover have "n + m \<le> e + m" using n by simp
        ultimately show ?thesis by blast
      next
        case False
        with h cp have "ob d = Some v" by (simp add: ob'_def obj_set_def)
        with Cons.prems(4) obtain k where "v = VNum (Fin (of_nat k))" "k \<le> e"
          by (auto simp add: nat_obj_def)
        then show ?thesis by auto
      qed
    qed
    from Cons.IH [OF rest i' e' no] jsadd_nat_exact [OF b] jsadd_nat_exact [OF bn] False s oz
    show ?thesis
      by (simp add: Let_def c_def [symmetric] category_key_def [symmetric] ob'_def)
  qed
qed

lemma whole_amounts_exact:
  assumes "\<forall>t \<in> set ts. whole_amount (tx_amount t) \<and> category_key t \<notin> set object_prototype_keys"
    and "income_sum ts \<le> 2 ^ 53" and "spend_sum ts \<le> 2 ^ 53"
  shows "exact_run ts (Fin 0, Fin 0, Map.empty)"
  using whole_amounts_exact_run [of ts 0 0 Map.empty] assms by (simp add: nat_obj_def)

subsection \<open>Concrete additions\<close>

lemma round64_small:
  "round64 5 = Fin 5" "round64 50 = Fin 50" "round64 200 = Fin 200" "round64 250 = Fin 250"
  "round64 750 = Fin 750" "round64 1000 = Fin 1000" "round64 1050 = Fin 1050"
  using round64_nat [of 5] round64_nat [of 50] round64_nat [of 200] round64_nat [of 250]
    round64_nat [of 750] round64_nat [of 1000] round64_nat [of 1050]
  by simp_all

text \<open>An import whose first row has a malformed amount stores a not-a-number amount.\<close>

lemma import_builds_nan_amount:
  "map (\<lambda>t. (tx_amount t, tx_category t))
     (rows_built sample_uuid 0
        [map_of [(''date'', ''2024-01-05''), (''Amount'', ''abc''), (''Category'', ''Fees'')],
         map_of [(''date'', ''2024-01-06''), (''Amount'', ''5''), (''Category'', ''Fees'')]])
   = [(NaN, ''Fees''), (Fin (- 5), ''Fees'')]"
proof -
  have n: "normalizeAmount ''abc'' = NaN" "normalizeAmount ''5'' = Fin 5"
    by (simp_all add: normalizeAmount_def endsWith_def parse_defs round64_small)
  have t: "trim ''Fees'' = ''Fees''" "trim [] = []" by (simp_all add: trim_def is_ws_def)
  show ?thesis
    by (simp add: build_row_def Let_def row_defs looksLikeCredit_spec spec_is_credit_def
        spec_credit_keywords_def toLowerCase_def toLowerChar_def t n)
qed

lemma round64_three_quarters: "round64 (3 / 4) = Fin (3 / 4)"
  using round64_exact_pos [of "- 1" "3 / 4" 6755399441055744] by (simp add: pow2_def)

lemma tenths_additions:
  "jsadd (Fin 0) (Fin (3602879701896397 / 36028797018963968))
     = Fin (3602879701896397 / 36028797018963968)"
  "jsadd (Fin (3602879701896397 / 36028797018963968)) (Fin (3602879701896397 / 18014398509481984))
     = Fin (1351079888211149 / 4503599627370496)"
  "jsadd (Fin (1351079888211149 / 4503599627370496)) (Fin (5404319552844595 / 18014398509481984))
     = Fin (1351079888211149 / 2251799813685248)"
  "jsadd (Fin 0) (Fin (5404319552844595 / 18014398509481984))
     = Fin (5404319552844595 / 18014398509481984)"
  "jsadd (Fin (5404319552844595 / 18014398509481984)) (Fin (3602879701896397 / 18014398509481984))
     = Fin (1 / 2)"
  "jsadd (Fin (1 / 2)) (Fin (3602879701896397 / 36028797018963968))
     = Fin (5404319552844595 / 9007199254740992)"
proof -
  show "jsadd (Fin 0) (Fin (3602879701896397 / 36028797018963968))
     = Fin (3602879701896397 / 36028797018963968)"
    using round64_exact_pos [of "- 4" "3602879701896397 / 36028797018963968" 7205759403792794]
    by (simp add: pow2_def)
  show "jsadd (Fin (3602879701896397 / 36028797018963968)) (Fin (3602879701896397 / 18014398509481984))
     = Fin (1351079888211149 / 4503599627370496)"
    using round64_tie [of "- 2" "3602879701896397 / 36028797018963968
                                  + 3602879701896397 / 18014398509481984" 5404319552844595]
    by (simp add: pow2_def)
  show "jsadd (Fin (1351079888211149 / 4503599627370496)) (Fin (5404319552844595 / 18014398509481984))
     = Fin (1351079888211149 / 2251799813685248)"
    using round64_tie [of "- 1" "1351079888211149 / 4503599627370496
                                  + 5404319552844595 / 18014398509481984" 5404319552844595]
    by (simp add: pow2_def)
  show "jsadd (Fin 0) (Fin (5404319552844595 / 18014398509481984))
     = Fin (5404319552844595 / 18014398509481984)"
    using round64_exact_pos [of "- 2" "5404319552844595 / 18014398509481984" 5404319552844595]
    by (simp add: pow2_def)
  show "jsadd (Fin (5404319552844595 / 18014398509481984)) (Fin (3602879701896397 / 18014398509481984))
     = Fin (1 / 2)"
    using round64_exact_pos [of "- 1" "1 / 2" 4503599627370496]
    by (simp add: pow2_def)
  show "jsadd (Fin (1 / 2)) (Fin (3602879701896397 / 36028797018963968))
     = Fin (5404319552844595 / 9007199254740992)"
    using round64_near [of "- 1" "1 / 2 + 3602879701896397 / 36028797018963968" 5404319552844595]
    by (simp add: pow2_def)
qed

lemma tenths_parse:
  "normalizeAmount ''0.1'' = Fin (3602879701896397 / 36028797018963968)"
  "normalizeAmount ''0.2'' = Fin (3602879701896397 / 18014398509481984)"
  "normalizeAmount ''0.3'' = Fin (5404319552844595 / 18014398509481984)"
  using round64_near [of "- 4" "1 / 10" 7205759403792794]
    round64_near [of "- 3" "2 / 10" 7205759403792794]
    round64_near [of "- 2" "3 / 10" 5404319552844595]
  by (simp_all add: normalizeAmount_def endsWith_def parse_defs pow2_def)

section \<open>Theorems\<close>

text \<open>
  C1. For every name that is not empty after trimming and every signed amount,
  \<open>categorize\<close> returns the first matching label of the fixed priority list: a positive
  amount gives \<open>Income\<close> whatever the name; otherwise the keyword sets are tried on the
  lower-cased name in the order Housing, Groceries, Gas, Transport, Subscriptions,
  Utilities, Internet, Coffee, Dining, the first match wins, and \<open>Uncategorized\<close> is the
  answer when none matches. For a name that is empty or all white space the answer is
  \<open>Uncategorized\<close>, whatever the amount and the keywords.
\<close>

theorem categorize_first_match:
  "(trim name \<noteq> [] \<longrightarrow> categorize name amount = spec_categorize name amount) \<and>
   (trim name = [] \<longrightarrow> categorize name amount = ''Uncategorized'')"
  by (simp add: categorize_def spec_categorize_def spec_keyword_rules_def Let_def)

theorem categorize_first_match_witness:
  "trim ''Shell Gas rent'' \<noteq> [] \<and>
   categorize ''Shell Gas rent'' (Fin (- 40)) = spec_categorize ''Shell Gas rent'' (Fin (- 40)) \<and>
   spec_categorize ''Shell Gas rent'' (Fin (- 40)) = ''Housing'' \<and>
   spec_categorize ''Shell Gas rent'' (Fin 40) = ''Income'' \<and>
   trim ''  '' = [] \<and> categorize ''  '' (Fin 40) = ''Uncategorized''"
proof -
  have ne: "trim ''Shell Gas rent'' \<noteq> []"
    by (simp add: trim_def is_ws_def)
  have e: "trim ''  '' = []"
    by (simp add: trim_def is_ws_def)
  have s1: "spec_categorize ''Shell Gas rent'' (Fin (- 40)) = ''Housing''"
    by (simp add: spec_categorize_def spec_keyword_rules_def toLowerCase_def toLowerChar_def)
  have s2: "spec_categorize ''Shell Gas rent'' (Fin 40) = ''Income''"
    by (simp add: spec_categorize_def)
  from categorize_first_match [of "''Shell Gas rent''" "Fin (- 40)"]
       categorize_first_match [of "''  ''" "Fin 40"] ne e s1 s2
  show ?thesis by simp
qed

text \<open>
  C2 (as amended). For every row that the import turns into a transaction, the final
  amount is the absolute value of the normalized amount when the cleaned name matches one
  of \<open>payment\<close>, \<open>credit\<close>, \<open>refund\<close>, \<open>returned\<close>, \<open>return\<close> (letter case ignored) or
  the bank category contains \<open>payment\<close> or \<open>credit\<close> (letter case ignored), and the
  negated absolute value in every other case. When the normalized amount is a number, the
  final amount is the absolute value exactly when that test holds, and its sign is given
  by the test alone, never by the sign written in the raw amount. When the normalized
  amount is not-a-number (a malformed amount), the final amount is not-a-number whatever
  the test says.
\<close>

theorem import_sign_inference:
  assumes "build_row uuid r = Some tx"
  shows "let n = normalizeAmount (String_of (row_amountRaw r));
             credit = spec_is_credit (trim (str_or_empty (row_rawName r)))
                        (str_or_empty (row_bankCategory r))
         in tx_amount tx = (if credit then jsabs n else jsneg (jsabs n)) \<and>
            (n \<noteq> NaN \<longrightarrow> (tx_amount tx = jsabs n) = credit) \<and>
            (n \<noteq> NaN \<longrightarrow> sign_neg (tx_amount tx) = (\<not> credit)) \<and>
            (n = NaN \<longrightarrow> tx_amount tx = NaN)"
proof -
  define n where "n = normalizeAmount (String_of (row_amountRaw r))"
  define credit where "credit = spec_is_credit (trim (str_or_empty (row_rawName r)))
                                  (str_or_empty (row_bankCategory r))"
  from assms have a: "tx_amount tx = (if credit then jsabs n else jsneg (jsabs n))"
    by (auto simp add: build_row_def Let_def looksLikeCredit_spec n_def credit_def
        split: if_splits)
  have b: "(tx_amount tx = jsabs n) = credit" if "n \<noteq> NaN"
    using a jsabs_neq_jsneg [OF that] by auto
  have c: "sign_neg (tx_amount tx) = (\<not> credit)" if "n \<noteq> NaN"
    using a sign_neg_jsabs [of n] sign_neg_jsneg_jsabs [OF that] by auto
  have d: "tx_amount tx = NaN" if "n = NaN"
    using a that by simp
  from a b c d show ?thesis
    unfolding Let_def n_def [symmetric] credit_def [symmetric] by blast
qed

theorem import_sign_inference_witness:
  "build_row (sample_uuid 0)
     (map_of [(''Date'', ''2024-02-01''), (''Description'', ''PAYMENT THANK YOU''),
              (''Amount (USD)'', ''-200.00'')])
     = Some \<lparr>tx_id = ''id-'', tx_date = ''2024-02-01'', tx_name = ''PAYMENT THANK YOU'',
             tx_amount = Fin 200, tx_category = ''Income''\<rparr> \<and>
   normalizeAmount ''-200.00'' = Fin (- 200) \<and>
   normalizeAmount ''-200.00'' \<noteq> NaN \<and>
   spec_is_credit ''PAYMENT THANK YOU'' [] \<and>
   Fin 200 = jsabs (normalizeAmount ''-200.00'') \<and>
   \<not> sign_neg (Fin 200)"
proof -
  let ?r = "map_of [(''Date'', ''2024-02-01''), (''Description'', ''PAYMENT THANK YOU''),
                    (''Amount (USD)'', ''-200.00'')]"
  let ?tx = "\<lparr>tx_id = ''id-'', tx_date = ''2024-02-01'', tx_name = ''PAYMENT THANK YOU'',
              tx_amount = Fin 200, tx_category = ''Income''\<rparr>"
  have n: "normalizeAmount ''-200.00'' = Fin (- 200)"
    using round64_nat [of 200] by (simp add: normalizeAmount_def endsWith_def parse_defs)
  have cr: "spec_is_credit ''PAYMENT THANK YOU'' []"
    by (simp add: spec_is_credit_def spec_credit_keywords_def toLowerCase_def toLowerChar_def)
  have t: "trim ''PAYMENT THANK YOU'' = ''PAYMENT THANK YOU''"
    by (simp add: trim_def is_ws_def)
  have te: "trim [] = []" by (simp add: trim_def)
  have b: "build_row (sample_uuid 0) ?r = Some ?tx"
    by (simp add: build_row_def Let_def row_defs looksLikeCredit_spec t te cr n categorize_def
        sample_uuid_def)
  from import_sign_inference [OF b] n cr b show ?thesis
    by (simp add: Let_def row_defs t)
qed

text \<open>The claim C2 as it is written fails on a malformed amount: the row with the
  description \<open>Starbucks\<close> and the amount \<open>abc\<close> is imported, no credit keyword matches,
  and yet the final amount, not-a-number, is the absolute value of the normalized amount
  (and its negation as well): the final amount is the absolute value without the test
  holding, and it carries no sign.\<close>

theorem import_sign_inference_counterexample:
  "build_row (sample_uuid 0)
     (map_of [(''date'', ''2024-01-05''), (''Description'', ''Starbucks''),
              (''Amount'', ''abc'')])
     = Some \<lparr>tx_id = ''id-'', tx_date = ''2024-01-05'', tx_name = ''Starbucks'',
             tx_amount = NaN, tx_category = ''Coffee''\<rparr> \<and>
   normalizeAmount ''abc'' = NaN \<and>
   \<not> spec_is_credit ''Starbucks'' [] \<and>
   NaN = jsabs (normalizeAmount ''abc'') \<and>
   NaN = jsneg (jsabs (normalizeAmount ''abc'')) \<and>
   \<not> sign_neg NaN"
proof -
  have n: "normalizeAmount ''abc'' = NaN"
    by (simp add: normalizeAmount_def endsWith_def parse_defs)
  have cr: "\<not> spec_is_credit ''Starbucks'' []"
    by (simp add: spec_is_credit_def spec_credit_keywords_def toLowerCase_def toLowerChar_def)
  have t: "trim ''Starbucks'' = ''Starbucks''" "trim [] = []"
    by (simp_all add: trim_def is_ws_def)
  have c: "categorize ''Starbucks'' NaN = ''Coffee''"
    by (simp add: categorize_def t toLowerCase_def toLowerChar_def)
  have b: "build_row (sample_uuid 0)
     (map_of [(''date'', ''2024-01-05''), (''Description'', ''Starbucks''),
              (''Amount'', ''abc'')])
     = Some \<lparr>tx_id = ''id-'', tx_date = ''2024-01-05'', tx_name = ''Starbucks'',
             tx_amount = NaN, tx_category = ''Coffee''\<rparr>"
    by (simp add: build_row_def Let_def row_defs looksLikeCredit_spec t cr n c sample_uuid_def)
  from b n cr show ?thesis by simp
qed

text \<open>
  C3 (as amended). Amount normalization deletes commas, dollar signs and parentheses
  and converts what is left to a number. For every text \<open>a\<close> without parentheses,
  normalizing \<open>(a)\<close> gives the negation of what normalizing \<open>a\<close> gives, and normalizing
  \<open>a\<close> gives the number that \<open>a\<close> without its commas and dollar signs denotes. The
  result for \<open>(a)\<close> is therefore negative only when \<open>a\<close> denotes a positive number.
\<close>

theorem normalizeAmount_parens:
  assumes "CHR ''('' \<notin> set a" and "CHR '')'' \<notin> set a"
  shows "normalizeAmount (''('' @ a @ '')'') = jsneg (normalizeAmount a) \<and>
         normalizeAmount a = Number_of_string (filter (\<lambda>c. c \<noteq> CHR '','' \<and> c \<noteq> CHR ''$'') a)"
proof -
  have f: "filter (\<lambda>c. c \<notin> set '',$()'') a = filter (\<lambda>c. c \<noteq> CHR '','' \<and> c \<noteq> CHR ''$'') a"
    using assms by (intro filter_cong) auto
  have "\<not> startsWith (trim a) ''(''"
    using startsWith_hd [of "trim a" "CHR ''(''"] set_trim [of a] assms(1) by auto
  then have n: "normalizeAmount a = Number_of_string (filter (\<lambda>c. c \<notin> set '',$()'') a)"
    by (simp add: normalizeAmount_alt)
  have sw: "startsWith (''('' @ a @ '')'') ''(''" by simp
  have ew: "endsWith (''('' @ a @ '')'') '')''" by (simp add: endsWith_def)
  have filt: "filter (\<lambda>c. c \<notin> set '',$()'') (''('' @ a @ '')'')
                = filter (\<lambda>c. c \<notin> set '',$()'') a" by simp
  have w: "normalizeAmount (''('' @ a @ '')'')
             = jsneg (Number_of_string (filter (\<lambda>c. c \<notin> set '',$()'') a))"
    using normalizeAmount_alt [of "''('' @ a @ '')''"]
    by (simp only: trim_wrapped sw ew filt simp_thms if_True)
  from n w f show ?thesis by simp
qed

theorem normalizeAmount_parens_witness:
  "CHR ''('' \<notin> set ''$1,234.50'' \<and> CHR '')'' \<notin> set ''$1,234.50'' \<and>
   normalizeAmount ''($1,234.50)'' = jsneg (normalizeAmount ''$1,234.50'') \<and>
   normalizeAmount ''$1,234.50'' = Number_of_string ''1234.50'' \<and>
   Number_of_string ''1234.50'' = Fin (2469 / 2)"
proof -
  have h1: "CHR ''('' \<notin> set ''$1,234.50''" and h2: "CHR '')'' \<notin> set ''$1,234.50''"
    by simp_all
  have v: "Number_of_string ''1234.50'' = Fin (2469 / 2)"
    using round64_exact_pos [of 10 "2469 / 2" 5429388417957888]
    by (simp add: parse_defs pow2_def)
  from normalizeAmount_parens [OF h1 h2] v show ?thesis by simp
qed

text \<open>The sentence of C3 that fails: a value in parentheses is not negative whatever
  its digits. The text \<open>(-5)\<close> is normalized to \<open>5\<close>, a positive number.\<close>

theorem normalizeAmount_parens_counterexample:
  "normalizeAmount ''(-5)'' = Fin 5 \<and> jsgt0 (normalizeAmount ''(-5)'') \<and>
   \<not> sign_neg (normalizeAmount ''(-5)'')"
proof -
  have "normalizeAmount ''(-5)'' = Fin 5"
    using round64_nat [of 5] by (simp add: normalizeAmount_def endsWith_def parse_defs)
  then show ?thesis by simp
qed

text \<open>
  C4 (as amended). A row of an import is left out, silently, exactly when its date
  resolves to nothing or to the empty string, or its amount resolves to \<open>undefined\<close>;
  one of the two is enough. Every other row produces one transaction, appended to the
  stored collection in the order of the rows, and the count sent back is the number of
  rows that were not left out. No row makes the import fail.
\<close>

theorem import_skips_rows:
  "(build_row u r = None) = unusable_row r \<and>
   import_rows uuid rows (txs, []) = (txs @ rows_built uuid 0 rows, rows_built uuid 0 rows) \<and>
   length (rows_built uuid 0 rows) = length (filter (\<lambda>r. \<not> unusable_row r) rows) \<and>
   (parse csvText = Inr rows \<longrightarrow>
      import_csv parse uuid txs (Some csvText) =
        (txs @ rows_built uuid 0 rows,
         Imported \<lparr>imported_count = length (filter (\<lambda>r. \<not> unusable_row r) rows),
                   sample = take 5 (rows_built uuid 0 rows)\<rparr>))"
  using import_rows_built [of uuid rows txs "[]"]
  by (simp add: build_row_None length_rows_built import_csv_def)

theorem import_skips_rows_witness:
  "import_csv
     (\<lambda>t. Inr [map_of [(''date'', ''2024-01-05'')],
                map_of [(''date'', ''2024-01-06''), (''Category'', ''Fees''), (''amount'', ''3'')],
                map_of [(''Amount'', ''12.50'')]])
     sample_uuid [] (Some ''date,amount'')
   = ([\<lparr>tx_id = ''id-'', tx_date = ''2024-01-06'', tx_name = ''(No description)'',
        tx_amount = Fin (- 3), tx_category = ''Fees''\<rparr>],
      Imported \<lparr>imported_count = 1,
                sample = [\<lparr>tx_id = ''id-'', tx_date = ''2024-01-06'',
                           tx_name = ''(No description)'', tx_amount = Fin (- 3),
                           tx_category = ''Fees''\<rparr>]\<rparr>)"
proof -
  let ?rows = "[map_of [(''date'', ''2024-01-05'')],
                map_of [(''date'', ''2024-01-06''), (''Category'', ''Fees''), (''amount'', ''3'')],
                map_of [(''Amount'', ''12.50'')]]"
  let ?parse = "\<lambda>t :: string. (Inr ?rows :: string + row list)"
  have p: "?parse ''date,amount'' = Inr ?rows" by simp
  have n: "normalizeAmount ''3'' = Fin 3"
    using round64_nat [of 3] by (simp add: normalizeAmount_def endsWith_def parse_defs)
  have t: "trim ''Fees'' = ''Fees''" "trim [] = []" by (simp_all add: trim_def is_ws_def)
  have u: "length (filter (\<lambda>r. \<not> unusable_row r) ?rows) = 1"
    by (simp add: unusable_row_def row_defs)
  have b: "rows_built sample_uuid 0 ?rows
             = [\<lparr>tx_id = ''id-'', tx_date = ''2024-01-06'', tx_name = ''(No description)'',
                 tx_amount = Fin (- 3), tx_category = ''Fees''\<rparr>]"
    by (simp add: build_row_def Let_def row_defs looksLikeCredit_spec spec_is_credit_def
        spec_credit_keywords_def toLowerCase_def toLowerChar_def t n sample_uuid_def)
  from import_skips_rows [of _ _ sample_uuid ?rows "[]" ?parse "''date,amount''"] p u b
  show ?thesis by simp
qed

text \<open>The claim C4 as it is written fails: a row whose date resolves and whose amount
  does not is left out, and so is a row whose amount resolves and whose date does not,
  although in each case only one of the two is absent.\<close>

theorem import_skips_rows_counterexample:
  "row_date (map_of [(''date'', ''2024-01-05'')]) = Some ''2024-01-05'' \<and>
   build_row (sample_uuid 0) (map_of [(''date'', ''2024-01-05'')]) = None \<and>
   row_amountRaw (map_of [(''Amount'', ''12.50'')]) = Some ''12.50'' \<and>
   build_row (sample_uuid 0) (map_of [(''Amount'', ''12.50'')]) = None"
  by (simp add: build_row_def row_defs)

text \<open>
  C5. Every transaction built by the manual entry or by the import has a category that
  is not the empty string. For an imported row it is the trimmed bank category when that
  is not empty; else the result of \<open>categorize\<close> on the cleaned name and the signed
  amount of the transaction when the cleaned name is not empty; else \<open>Uncategorized\<close>.
  For a manual entry, which has no bank category, it is the result of \<open>categorize\<close> when
  the cleaned name is not empty, else \<open>Uncategorized\<close>.
\<close>

theorem category_never_empty:
  "tx_category (snd (post_transaction uuid txs body)) \<noteq> [] \<and>
   tx_category (snd (post_transaction uuid txs body)) =
     (if trim (str_or_empty (body_name body)) \<noteq> []
      then categorize (trim (str_or_empty (body_name body))) (Number_of (body_amount body))
      else ''Uncategorized'') \<and>
   (build_row uuid' r = Some tx \<longrightarrow>
      tx_category tx \<noteq> [] \<and>
      tx_category tx =
        (if trim (str_or_empty (row_bankCategory r)) \<noteq> []
         then trim (str_or_empty (row_bankCategory r))
         else if trim (str_or_empty (row_rawName r)) \<noteq> []
         then categorize (trim (str_or_empty (row_rawName r))) (tx_amount tx)
         else ''Uncategorized''))"
  by (auto simp add: post_transaction_def build_row_def Let_def categorize_nonempty
      split: if_splits)

theorem category_never_empty_witness:
  "build_row (sample_uuid 0)
     (map_of [(''date'', ''2024-01-05''), (''Description'', ''Whole Foods Market''),
              (''Amount'', ''54.5''), (''Category'', ''  Supermarkets '')])
     = Some \<lparr>tx_id = ''id-'', tx_date = ''2024-01-05'', tx_name = ''Whole Foods Market'',
             tx_amount = Fin (- (109 / 2)), tx_category = ''Supermarkets''\<rparr> \<and>
   build_row (sample_uuid 0)
     (map_of [(''date'', ''2024-01-05''), (''Description'', ''Whole Foods Market''),
              (''Amount'', ''54.5'')])
     = Some \<lparr>tx_id = ''id-'', tx_date = ''2024-01-05'', tx_name = ''Whole Foods Market'',
             tx_amount = Fin (- (109 / 2)), tx_category = ''Groceries''\<rparr> \<and>
   categorize ''Whole Foods Market'' (Fin (- (109 / 2))) = ''Groceries'' \<and>
   ''Supermarkets'' \<noteq> [] \<and> ''Groceries'' \<noteq> []"
proof -
  let ?r1 = "map_of [(''date'', ''2024-01-05''), (''Description'', ''Whole Foods Market''),
                     (''Amount'', ''54.5''), (''Category'', ''  Supermarkets '')]"
  let ?r2 = "map_of [(''date'', ''2024-01-05''), (''Description'', ''Whole Foods Market''),
                     (''Amount'', ''54.5'')]"
  let ?t1 = "\<lparr>tx_id = ''id-'', tx_date = ''2024-01-05'', tx_name = ''Whole Foods Market'',
              tx_amount = Fin (- (109 / 2)), tx_category = ''Supermarkets''\<rparr>"
  let ?t2 = "\<lparr>tx_id = ''id-'', tx_date = ''2024-01-05'', tx_name = ''Whole Foods Market'',
              tx_amount = Fin (- (109 / 2)), tx_category = ''Groceries''\<rparr>"
  have n: "normalizeAmount ''54.5'' = Fin (109 / 2)"
    using round64_exact_pos [of 5 "109 / 2" 7670193115365376]
    by (simp add: normalizeAmount_def endsWith_def parse_defs pow2_def)
  have t: "trim ''Whole Foods Market'' = ''Whole Foods Market''"
    "trim ''  Supermarkets '' = ''Supermarkets''" "trim [] = []"
    by (simp_all add: trim_def is_ws_def)
  have cr: "\<not> spec_is_credit ''Whole Foods Market'' ''  Supermarkets ''"
    "\<not> spec_is_credit ''Whole Foods Market'' []"
    by (simp_all add: spec_is_credit_def spec_credit_keywords_def toLowerCase_def
        toLowerChar_def)
  have c: "categorize ''Whole Foods Market'' (Fin (- (109 / 2))) = ''Groceries''"
    by (simp add: categorize_def t toLowerCase_def toLowerChar_def)
  have b1: "build_row (sample_uuid 0) ?r1 = Some ?t1"
    by (simp add: build_row_def Let_def row_defs looksLikeCredit_spec t cr n sample_uuid_def)
  have b2: "build_row (sample_uuid 0) ?r2 = Some ?t2"
    by (simp add: build_row_def Let_def row_defs looksLikeCredit_spec t cr n c sample_uuid_def)
  from category_never_empty [of "''id''" "[]" "\<lparr>body_date = None, body_name = None,
         body_amount = AmtNum (Fin 1)\<rparr>" "sample_uuid 0" ?r1 ?t1]
       category_never_empty [of "''id''" "[]" "\<lparr>body_date = None, body_name = None,
         body_amount = AmtNum (Fin 1)\<rparr>" "sample_uuid 0" ?r2 ?t2] b1 b2 c
  show ?thesis by simp
qed

text \<open>
  C6 (evaluation at the failing input). Two transactions of the category \<open>Fees\<close>, the
  first with a not-a-number amount (what a malformed amount of an import becomes), the
  second with amount \<open>-5\<close>: \<open>expenses\<close> is not-a-number, but the bucket \<open>Fees\<close> holds \<open>5\<close>,
  because \<open>byCategory[cat] || 0\<close> takes the not-a-number already in the bucket for a
  missing value and starts again from \<open>0\<close>. In the other order the bucket holds
  not-a-number. For the category \<open>constructor\<close> the bucket receives a text, not a sum.
\<close>

theorem nan_bucket_restarts:
  "t_expenses (insights_totals nt pt
     [sample_tx ''Fee'' NaN ''Fees'', sample_tx ''Fee'' (Fin (- 5)) ''Fees'']) = NaN \<and>
   t_byCategory (insights_totals nt pt
     [sample_tx ''Fee'' NaN ''Fees'', sample_tx ''Fee'' (Fin (- 5)) ''Fees'']) ''Fees''
     = Some (VNum (Fin 5)) \<and>
   t_byCategory (insights_totals nt pt
     [sample_tx ''Fee'' (Fin (- 5)) ''Fees'', sample_tx ''Fee'' NaN ''Fees'']) ''Fees''
     = Some (VNum NaN) \<and>
   t_byCategory (insights_totals nt pt [sample_tx ''Fee'' (Fin (- 5)) ''constructor''])
     ''constructor'' = Some (VStr (pt ''constructor'' @ nt (Fin 5)))"
proof -
  have t: "totals_loop nt pt
             [sample_tx ''Fee'' NaN ''Fees'', sample_tx ''Fee'' (Fin (- 5)) ''Fees'']
             (Fin 0, Fin 0, Map.empty)
           = (Fin 0, NaN, [''Fees'' \<mapsto> VNum (Fin 5)])"
    by (simp add: sample_tx_def obj_get_def obj_set_def object_prototype_keys_def
        round64_small)
  have t': "totals_loop nt pt
             [sample_tx ''Fee'' (Fin (- 5)) ''Fees'', sample_tx ''Fee'' NaN ''Fees'']
             (Fin 0, Fin 0, Map.empty)
           = (Fin 0, NaN, [''Fees'' \<mapsto> VNum NaN])"
    by (simp add: sample_tx_def obj_get_def obj_set_def object_prototype_keys_def
        round64_small)
  have c: "totals_loop nt pt [sample_tx ''Fee'' (Fin (- 5)) ''constructor'']
             (Fin 0, Fin 0, Map.empty)
           = (Fin 0, Fin 5, [''constructor'' \<mapsto> VStr (pt ''constructor'' @ nt (Fin 5))])"
    by (simp add: sample_tx_def obj_get_def obj_set_def object_prototype_keys_def
        round64_small Let_def)
  show ?thesis unfolding insights_totals_def t t' c by simp
qed

text \<open>
  C7 (as amended). Aggregation is order-independent as long as no addition rounds: for
  every collection and every permutation of it such that, in both orders, every addition
  of the loop is an exact addition of finite numbers and no bucket key is a member name of
  \<open>Object.prototype\<close>, the aggregated income, expenses, net and \<open>byCategory\<close> are the
  same. This is so in particular when all amounts are whole numbers, the positive ones
  summing to at most \<open>2^53\<close> and the magnitudes of the others as well.
\<close>

theorem totals_order_independent:
  assumes "mset ts = mset ts'"
  shows "(exact_run ts (Fin 0, Fin 0, Map.empty) \<and> exact_run ts' (Fin 0, Fin 0, Map.empty)
            \<longrightarrow> insights_totals nt pt ts = insights_totals nt pt ts') \<and>
         ((\<forall>t \<in> set ts. whole_amount (tx_amount t)
                          \<and> category_key t \<notin> set object_prototype_keys)
            \<and> income_sum ts \<le> 2 ^ 53 \<and> spend_sum ts \<le> 2 ^ 53
            \<longrightarrow> insights_totals nt pt ts = insights_totals nt pt ts')"
proof -
  have general: "insights_totals nt pt ts = insights_totals nt pt ts'"
    if "exact_run ts (Fin 0, Fin 0, Map.empty)" and "exact_run ts' (Fin 0, Fin 0, Map.empty)"
    unfolding insights_totals_exact [OF that(1)] insights_totals_exact [OF that(2)]
      sums_permute [OF assms] ..
  have whole: "insights_totals nt pt ts = insights_totals nt pt ts'"
    if w: "\<forall>t \<in> set ts. whole_amount (tx_amount t)
                          \<and> category_key t \<notin> set object_prototype_keys"
      and i: "income_sum ts \<le> 2 ^ 53" and e: "spend_sum ts \<le> 2 ^ 53"
  proof -
    have "set ts' = set ts" using assms by (metis set_mset_mset)
    with w have w': "\<forall>t \<in> set ts'. whole_amount (tx_amount t)
                          \<and> category_key t \<notin> set object_prototype_keys" by simp
    have i': "income_sum ts' \<le> 2 ^ 53" and e': "spend_sum ts' \<le> 2 ^ 53"
      using i e sums_permute(1,2) [OF assms] by simp_all
    from whole_amounts_exact [OF w i e] whole_amounts_exact [OF w' i' e']
    show ?thesis by (rule general)
  qed
  from general whole show ?thesis by blast
qed

theorem totals_order_independent_witness:
  "mset [sample_tx ''Salary'' (Fin 1000) ''Income'',
         sample_tx ''Trader Joes'' (Fin (- 200)) ''Groceries'',
         sample_tx ''Shell'' (Fin (- 50)) ''Gas'']
     = mset [sample_tx ''Shell'' (Fin (- 50)) ''Gas'',
             sample_tx ''Salary'' (Fin 1000) ''Income'',
             sample_tx ''Trader Joes'' (Fin (- 200)) ''Groceries''] \<and>
   exact_run [sample_tx ''Salary'' (Fin 1000) ''Income'',
              sample_tx ''Trader Joes'' (Fin (- 200)) ''Groceries'',
              sample_tx ''Shell'' (Fin (- 50)) ''Gas''] (Fin 0, Fin 0, Map.empty) \<and>
   exact_run [sample_tx ''Shell'' (Fin (- 50)) ''Gas'',
              sample_tx ''Salary'' (Fin 1000) ''Income'',
              sample_tx ''Trader Joes'' (Fin (- 200)) ''Groceries''] (Fin 0, Fin 0, Map.empty) \<and>
   insights_totals sample_numText sample_protoText
     [sample_tx ''Shell'' (Fin (- 50)) ''Gas'',
      sample_tx ''Salary'' (Fin 1000) ''Income'',
      sample_tx ''Trader Joes'' (Fin (- 200)) ''Groceries'']
   = insights_totals sample_numText sample_protoText
     [sample_tx ''Salary'' (Fin 1000) ''Income'',
      sample_tx ''Trader Joes'' (Fin (- 200)) ''Groceries'',
      sample_tx ''Shell'' (Fin (- 50)) ''Gas''] \<and>
   insights_totals sample_numText sample_protoText
     [sample_tx ''Salary'' (Fin 1000) ''Income'',
      sample_tx ''Trader Joes'' (Fin (- 200)) ''Groceries'',
      sample_tx ''Shell'' (Fin (- 50)) ''Gas'']
   = \<lparr>t_income = Fin 1000, t_expenses = Fin 250, t_net = Fin 750,
      t_byCategory = map_of [(''Gas'', VNum (Fin 50)), (''Groceries'', VNum (Fin 200))]\<rparr> \<and>
   list_all (\<lambda>t. whole_amount (tx_amount t) \<and> category_key t \<notin> set object_prototype_keys)
     [sample_tx ''Salary'' (Fin 1000) ''Income'',
      sample_tx ''Trader Joes'' (Fin (- 200)) ''Groceries'',
      sample_tx ''Shell'' (Fin (- 50)) ''Gas''] \<and>
   income_sum [sample_tx ''Salary'' (Fin 1000) ''Income'',
               sample_tx ''Trader Joes'' (Fin (- 200)) ''Groceries'',
               sample_tx ''Shell'' (Fin (- 50)) ''Gas''] \<le> 2 ^ 53 \<and>
   spend_sum [sample_tx ''Salary'' (Fin 1000) ''Income'',
              sample_tx ''Trader Joes'' (Fin (- 200)) ''Groceries'',
              sample_tx ''Shell'' (Fin (- 50)) ''Gas''] \<le> 2 ^ 53"
proof -
  let ?A = "[sample_tx ''Salary'' (Fin 1000) ''Income'',
             sample_tx ''Trader Joes'' (Fin (- 200)) ''Groceries'',
             sample_tx ''Shell'' (Fin (- 50)) ''Gas'']"
  let ?B = "[sample_tx ''Shell'' (Fin (- 50)) ''Gas'',
             sample_tx ''Salary'' (Fin 1000) ''Income'',
             sample_tx ''Trader Joes'' (Fin (- 200)) ''Groceries'']"
  have m: "mset ?A = mset ?B" by (simp add: ac_simps)
  have a: "exact_run ?A (Fin 0, Fin 0, Map.empty)"
    by (simp add: sample_tx_def exact_add_def obj_get_def obj_set_def
        object_prototype_keys_def round64_small)
  have b: "exact_run ?B (Fin 0, Fin 0, Map.empty)"
    by (simp add: sample_tx_def exact_add_def obj_get_def obj_set_def
        object_prototype_keys_def round64_small)
  have t: "totals_loop sample_numText sample_protoText ?A (Fin 0, Fin 0, Map.empty)
             = (Fin 1000, Fin 250, map_of [(''Gas'', VNum (Fin 50)), (''Groceries'', VNum (Fin 200))])"
    by (simp add: sample_tx_def obj_get_def obj_set_def object_prototype_keys_def
        round64_small)
  have v: "insights_totals sample_numText sample_protoText ?A
     = \<lparr>t_income = Fin 1000, t_expenses = Fin 250, t_net = Fin 750,
        t_byCategory = map_of [(''Gas'', VNum (Fin 50)), (''Groceries'', VNum (Fin 200))]\<rparr>"
    unfolding insights_totals_def t by (simp add: jssub_def round64_small)
  have w: "list_all (\<lambda>t. whole_amount (tx_amount t)
                          \<and> category_key t \<notin> set object_prototype_keys) ?A"
    by (simp add: sample_tx_def whole_amount_def category_key_def object_prototype_keys_def)
  have i: "income_sum ?A \<le> 2 ^ 53" by (simp add: income_sum_def sample_tx_def)
  have e: "spend_sum ?A \<le> 2 ^ 53" by (simp add: spend_sum_def sample_tx_def)
  from w have w': "\<forall>t \<in> set ?A. whole_amount (tx_amount t)
                          \<and> category_key t \<notin> set object_prototype_keys"
    by (simp only: list_all_iff)
  from totals_order_independent [OF m, of sample_numText sample_protoText] a b w' i e
  have "insights_totals sample_numText sample_protoText ?A
          = insights_totals sample_numText sample_protoText ?B" by blast
  with m a b v w i e show ?thesis by simp
qed

text \<open>The claim C7 as it is written fails on rounding: the amounts \<open>-0.1\<close>, \<open>-0.2\<close>,
  \<open>-0.3\<close> (as doubles) give the expenses \<open>0.6000000000000001\<close> in this order and \<open>0.6\<close> in
  the reverse order.\<close>

theorem totals_order_independent_counterexample:
  "mset [sample_tx ''Coffee'' (Fin (- (3602879701896397 / 36028797018963968))) ''Coffee'',
         sample_tx ''Coffee'' (Fin (- (3602879701896397 / 18014398509481984))) ''Coffee'',
         sample_tx ''Coffee'' (Fin (- (5404319552844595 / 18014398509481984))) ''Coffee'']
     = mset [sample_tx ''Coffee'' (Fin (- (5404319552844595 / 18014398509481984))) ''Coffee'',
             sample_tx ''Coffee'' (Fin (- (3602879701896397 / 18014398509481984))) ''Coffee'',
             sample_tx ''Coffee'' (Fin (- (3602879701896397 / 36028797018963968))) ''Coffee''] \<and>
   normalizeAmount ''0.1'' = Fin (3602879701896397 / 36028797018963968) \<and>
   normalizeAmount ''0.2'' = Fin (3602879701896397 / 18014398509481984) \<and>
   normalizeAmount ''0.3'' = Fin (5404319552844595 / 18014398509481984) \<and>
   t_expenses (insights_totals sample_numText sample_protoText
     [sample_tx ''Coffee'' (Fin (- (3602879701896397 / 36028797018963968))) ''Coffee'',
      sample_tx ''Coffee'' (Fin (- (3602879701896397 / 18014398509481984))) ''Coffee'',
      sample_tx ''Coffee'' (Fin (- (5404319552844595 / 18014398509481984))) ''Coffee''])
     = Fin (1351079888211149 / 2251799813685248) \<and>
   t_expenses (insights_totals sample_numText sample_protoText
     [sample_tx ''Coffee'' (Fin (- (5404319552844595 / 18014398509481984))) ''Coffee'',
      sample_tx ''Coffee'' (Fin (- (3602879701896397 / 18014398509481984))) ''Coffee'',
      sample_tx ''Coffee'' (Fin (- (3602879701896397 / 36028797018963968))) ''Coffee''])
     = Fin (5404319552844595 / 9007199254740992) \<and>
   Fin (1351079888211149 / 2251799813685248) \<noteq> Fin (5404319552844595 / 9007199254740992)"
proof -
  have A: "totals_loop sample_numText sample_protoText
     [sample_tx ''Coffee'' (Fin (- (3602879701896397 / 36028797018963968))) ''Coffee'',
      sample_tx ''Coffee'' (Fin (- (3602879701896397 / 18014398509481984))) ''Coffee'',
      sample_tx ''Coffee'' (Fin (- (5404319552844595 / 18014398509481984))) ''Coffee'']
     (Fin 0, Fin 0, Map.empty)
     = (Fin 0, Fin (1351079888211149 / 2251799813685248),
        [''Coffee'' \<mapsto> VNum (Fin (1351079888211149 / 2251799813685248))])"
    by (simp add: sample_tx_def obj_get_def obj_set_def object_prototype_keys_def
        tenths_additions del: jsadd.simps)
  have B: "totals_loop sample_numText sample_protoText
     [sample_tx ''Coffee'' (Fin (- (5404319552844595 / 18014398509481984))) ''Coffee'',
      sample_tx ''Coffee'' (Fin (- (3602879701896397 / 18014398509481984))) ''Coffee'',
      sample_tx ''Coffee'' (Fin (- (3602879701896397 / 36028797018963968))) ''Coffee'']
     (Fin 0, Fin 0, Map.empty)
     = (Fin 0, Fin (5404319552844595 / 9007199254740992),
        [''Coffee'' \<mapsto> VNum (Fin (5404319552844595 / 9007199254740992))])"
    by (simp add: sample_tx_def obj_get_def obj_set_def object_prototype_keys_def
        tenths_additions del: jsadd.simps)
  show ?thesis unfolding insights_totals_def A B by (simp add: tenths_parse ac_simps)
qed

text \<open>
  C8. A manual entry applies no sign inference: the stored amount is the amount of the
  caller converted to a number (the very number when a number was sent), whatever the
  name says. The stored name is the trimmed name, or \<open>(No description)\<close> when the
  trimmed name is empty, and in that case the category is \<open>Uncategorized\<close>. The new
  record is appended to the stored collection.
\<close>

theorem manual_entry_verbatim:
  "tx_amount (snd (post_transaction uuid txs body)) = Number_of (body_amount body) \<and>
   (body_amount body = AmtNum n \<longrightarrow> tx_amount (snd (post_transaction uuid txs body)) = n) \<and>
   tx_name (snd (post_transaction uuid txs body)) =
     (if trim (str_or_empty (body_name body)) = [] then ''(No description)''
      else trim (str_or_empty (body_name body))) \<and>
   (trim (str_or_empty (body_name body)) = [] \<longrightarrow>
      tx_category (snd (post_transaction uuid txs body)) = ''Uncategorized'') \<and>
   fst (post_transaction uuid txs body) = txs @ [snd (post_transaction uuid txs body)]"
  by (simp add: post_transaction_def Let_def)

theorem manual_entry_verbatim_witness:
  "post_transaction ''id-1'' []
     \<lparr>body_date = Some ''2024-03-01'', body_name = Some [], body_amount = AmtNum (Fin (- 10))\<rparr>
   = ([\<lparr>tx_id = ''id-1'', tx_date = ''2024-03-01'', tx_name = ''(No description)'',
        tx_amount = Fin (- 10), tx_category = ''Uncategorized''\<rparr>],
      \<lparr>tx_id = ''id-1'', tx_date = ''2024-03-01'', tx_name = ''(No description)'',
        tx_amount = Fin (- 10), tx_category = ''Uncategorized''\<rparr>) \<and>
   tx_amount (snd (post_transaction ''id-2'' []
     \<lparr>body_date = Some ''2024-03-02'', body_name = Some ''Refund'',
      body_amount = AmtNum (Fin (- 5))\<rparr>)) = Fin (- 5)"
proof -
  let ?b1 = "\<lparr>body_date = Some ''2024-03-01'', body_name = Some [],
              body_amount = AmtNum (Fin (- 10))\<rparr>"
  let ?b2 = "\<lparr>body_date = Some ''2024-03-02'', body_name = Some ''Refund'',
              body_amount = AmtNum (Fin (- 5))\<rparr>"
  have t: "trim [] = []" by (simp add: trim_def)
  have d: "tx_id (snd (post_transaction ''id-1'' [] ?b1)) = ''id-1''"
    "tx_date (snd (post_transaction ''id-1'' [] ?b1)) = ''2024-03-01''"
    by (simp_all add: post_transaction_def Let_def String_of_def)
  from manual_entry_verbatim [of "''id-1''" "[]" ?b1 "Fin (- 10)"]
  have "snd (post_transaction ''id-1'' [] ?b1)
          = \<lparr>tx_id = ''id-1'', tx_date = ''2024-03-01'', tx_name = ''(No description)'',
             tx_amount = Fin (- 10), tx_category = ''Uncategorized''\<rparr>"
    using d by (simp add: str_or_empty_def t)
  moreover from manual_entry_verbatim [of "''id-1''" "[]" ?b1 "Fin (- 10)"]
  have "fst (post_transaction ''id-1'' [] ?b1) = [snd (post_transaction ''id-1'' [] ?b1)]"
    by simp
  moreover from manual_entry_verbatim [of "''id-2''" "[]" ?b2 "Fin (- 5)"]
  have "tx_amount (snd (post_transaction ''id-2'' [] ?b2)) = Fin (- 5)" by simp
  ultimately show ?thesis by (simp add: prod_eq_iff)
qed

text \<open>
  C9. When the text of the upload does not parse, the import stops as a whole: the
  answer is the single failure \<open>CSV parse error\<close> with the parser's message, and the
  stored collection after the request is the collection before it; no transaction is
  created.
\<close>

theorem parse_failure_aborts:
  "parse csvText = Inl err \<Longrightarrow>
   import_csv parse uuid txs (Some csvText) = (txs, BadRequest ''CSV parse error'' (Some err))"
  by (simp add: import_csv_def)

theorem parse_failure_aborts_witness:
  "import_csv Inl sample_uuid
     [\<lparr>tx_id = ''id-1'', tx_date = ''2024-03-01'', tx_name = ''(No description)'',
       tx_amount = Fin (- 10), tx_category = ''Uncategorized''\<rparr>]
     (Some ''date,amount'')
   = ([\<lparr>tx_id = ''id-1'', tx_date = ''2024-03-01'', tx_name = ''(No description)'',
        tx_amount = Fin (- 10), tx_category = ''Uncategorized''\<rparr>],
      BadRequest ''CSV parse error'' (Some ''date,amount''))"
  using parse_failure_aborts [of Inl "''date,amount''" "''date,amount''" sample_uuid]
  by simp

text \<open>
  C10. For every collection of transactions, the loops of the totals, the summary and
  the advice endpoint compute the same income and the same expenses, hence the same net,
  and the summary and the advice endpoint the same savings rate.
\<close>

theorem three_loops_agree:
  "t_income (insights_totals nt pt ts) = s_income (insights_summary ts) \<and>
   t_expenses (insights_totals nt pt ts) = s_expenses (insights_summary ts) \<and>
   t_net (insights_totals nt pt ts) = s_net (insights_summary ts) \<and>
   advice_figures ts =
     (s_income (insights_summary ts), s_expenses (insights_summary ts),
      s_net (insights_summary ts), s_savingsRate (insights_summary ts))"
proof -
  obtain i e b where t: "totals_loop nt pt ts (Fin 0, Fin 0, Map.empty) = (i, e, b)"
    by (cases "totals_loop nt pt ts (Fin 0, Fin 0, Map.empty)") auto
  with totals_loop_summary [of nt pt ts "Fin 0" "Fin 0" Map.empty]
  have s: "summary_loop ts (Fin 0, Fin 0) = (i, e)" by simp
  show ?thesis
    by (simp add: insights_totals_def insights_summary_def advice_figures_def
        advice_loop_summary t s Let_def)
qed

theorem three_loops_agree_witness:
  "insights_summary
     [sample_tx ''Salary'' (Fin 1000) ''Income'',
      sample_tx ''Trader Joes'' (Fin (- 200)) ''Groceries'',
      sample_tx ''Shell'' (Fin (- 50)) ''Gas'']
     = \<lparr>s_income = Fin 1000, s_expenses = Fin 250, s_net = Fin 750,
        s_savingsRate = Fin (3 / 4)\<rparr> \<and>
   t_income (insights_totals sample_numText sample_protoText
     [sample_tx ''Salary'' (Fin 1000) ''Income'',
      sample_tx ''Trader Joes'' (Fin (- 200)) ''Groceries'',
      sample_tx ''Shell'' (Fin (- 50)) ''Gas'']) = Fin 1000 \<and>
   t_expenses (insights_totals sample_numText sample_protoText
     [sample_tx ''Salary'' (Fin 1000) ''Income'',
      sample_tx ''Trader Joes'' (Fin (- 200)) ''Groceries'',
      sample_tx ''Shell'' (Fin (- 50)) ''Gas'']) = Fin 250 \<and>
   t_net (insights_totals sample_numText sample_protoText
     [sample_tx ''Salary'' (Fin 1000) ''Income'',
      sample_tx ''Trader Joes'' (Fin (- 200)) ''Groceries'',
      sample_tx ''Shell'' (Fin (- 50)) ''Gas'']) = Fin 750 \<and>
   advice_figures
     [sample_tx ''Salary'' (Fin 1000) ''Income'',
      sample_tx ''Trader Joes'' (Fin (- 200)) ''Groceries'',
      sample_tx ''Shell'' (Fin (- 50)) ''Gas'']
     = (Fin 1000, Fin 250, Fin 750, Fin (3 / 4))"
proof -
  let ?ts = "[sample_tx ''Salary'' (Fin 1000) ''Income'',
              sample_tx ''Trader Joes'' (Fin (- 200)) ''Groceries'',
              sample_tx ''Shell'' (Fin (- 50)) ''Gas'']"
  have s: "insights_summary ?ts
             = \<lparr>s_income = Fin 1000, s_expenses = Fin 250, s_net = Fin 750,
                s_savingsRate = Fin (3 / 4)\<rparr>"
    by (simp add: insights_summary_def sample_tx_def jssub_def jsdiv_def is_zero_def
        round64_small round64_three_quarters)
  from three_loops_agree [of sample_numText sample_protoText ?ts] s
  show ?thesis by simp
qed

end
